theory Spec2Isabelle
  imports Main "HOL-Library.AList" "HOL-Library.Option_ord" "HOL-Library.Multiset"
begin

section \<open>Values, documents and errors\<close>

text \<open>
  The program (\<^verbatim>\<open>main.py\<close>) is a set of request handlers over three MongoDB
  collections, \<^verbatim>\<open>db["profile"]\<close>, \<^verbatim>\<open>db["match"]\<close> and \<^verbatim>\<open>db["message"]\<close>. A document
  is a Python dict: an association list from field names to values, in insertion order.
  An \<^verbatim>\<open>ObjectId\<close> is identified with a natural number, a \<^verbatim>\<open>datetime\<close> with an integer
  (a count of clock ticks).
\<close>

type_synonym ObjectId = nat
type_synonym datetime = int

datatype val =
    VNone
  | VBool bool
  | VInt int
  | VStr string
  | VOid ObjectId
  | VDatetime datetime
  | VList "val list"

type_synonym doc = "(string \<times> val) list"

text \<open>
  \<^verbatim>\<open>HTTPException(status_code, detail)\<close> is what the handlers raise; \<^verbatim>\<open>KeyError\<close> is what
  \<^verbatim>\<open>d[k]\<close> raises on a missing key.
\<close>

datatype error = HTTPException nat string | KeyError string

text \<open>
  What the handlers use of the Python and bson libraries, none of it code of the
  repository, is taken as a parameter: \<^verbatim>\<open>ObjectId(id_str)\<close> (\<open>None\<close> where it raises),
  \<^verbatim>\<open>str(v)\<close> and \<^verbatim>\<open>datetime.isoformat\<close>.
\<close>

record pylib =
  ObjectId_of :: "string \<Rightarrow> ObjectId option"
  str :: "val \<Rightarrow> string"
  isoformat :: "datetime \<Rightarrow> string"

text \<open>\<^verbatim>\<open>d.get(k)\<close>, \<^verbatim>\<open>d[k]\<close> and the truth value of a Python object.\<close>

definition get :: "doc \<Rightarrow> string \<Rightarrow> val" where
  "get d k = (case map_of d k of None \<Rightarrow> VNone | Some v \<Rightarrow> v)"

definition getitem :: "doc \<Rightarrow> string \<Rightarrow> error + val" where
  "getitem d k = (case map_of d k of None \<Rightarrow> Inl (KeyError k) | Some v \<Rightarrow> Inr v)"

fun truthy :: "val \<Rightarrow> bool" where
  "truthy VNone = False"
| "truthy (VBool b) = b"
| "truthy (VInt i) = (i \<noteq> 0)"
| "truthy (VStr s) = (s \<noteq> [])"
| "truthy (VOid _) = True"
| "truthy (VDatetime _) = True"
| "truthy (VList xs) = (xs \<noteq> [])"

text \<open>
  \<^verbatim>\<open>"if not doc"\<close> and \<^verbatim>\<open>"if other_like"\<close> test an optional dict: \<open>None\<close> and the empty
  dict are false.
\<close>

fun truthy_doc :: "doc option \<Rightarrow> bool" where
  "truthy_doc None = False"
| "truthy_doc (Some d) = (d \<noteq> [])"

section \<open>Utility\<close>

definition to_oid :: "pylib \<Rightarrow> string \<Rightarrow> error + ObjectId" where
  "to_oid L id_str =
     (case ObjectId_of L id_str of
        Some oid \<Rightarrow> Inr oid
      | None \<Rightarrow> Inl (HTTPException 400 ''Invalid id format''))"

definition serialize :: "pylib \<Rightarrow> doc option \<Rightarrow> doc option" where
  "serialize L doc =
     (case doc of
        None \<Rightarrow> None
      | Some doc' \<Rightarrow>
          if doc' = [] then None
          else
            let d = AList.delete ''_id'' doc';
                id' = get doc' ''_id'';
                d = (if truthy id' then AList.update ''id'' (VStr (str L id')) d else d)
            in Some (map (\<lambda>(k, v). (k, case v of VDatetime t \<Rightarrow> VStr (isoformat L t) | _ \<Rightarrow> v)) d))"

section \<open>The collections\<close>

text \<open>
  A collection is the list of its documents in natural (insertion) order. A query is a
  dict: a field maps to a value (equality) or to \<^verbatim>\<open>{"$ne": v}\<close>; the key \<^verbatim>\<open>"$or"\<close> maps
  to a list of equality dicts. \<^verbatim>\<open>$ne\<close> also selects the documents that lack the field.
\<close>

datatype cond = Is val | Ne val | Or "(string \<times> val) list list"

type_synonym query = "(string \<times> cond) list"

fun holds :: "doc \<Rightarrow> string \<times> cond \<Rightarrow> bool" where
  "holds d (k, Is v) = (map_of d k = Some v)"
| "holds d (k, Ne v) = (map_of d k \<noteq> Some v)"
| "holds d (k, Or qs) = list_ex (list_all (\<lambda>(k', v). map_of d k' = Some v)) qs"

definition matches :: "query \<Rightarrow> doc \<Rightarrow> bool" where
  "matches q d = list_all (holds d) q"

definition coll_find :: "query \<Rightarrow> doc list \<Rightarrow> doc list" where
  "coll_find q c = filter (matches q) c"

definition find_one :: "query \<Rightarrow> doc list \<Rightarrow> doc option" where
  "find_one q c = List.find (matches q) c"

text \<open>
  \<^verbatim>\<open>cursor.sort(key, direction)\<close>: the handlers sort on datetime fields only; a document
  without the field sorts as the least. The sort is taken to be stable.
\<close>

definition sort_field :: "string \<Rightarrow> doc \<Rightarrow> datetime option" where
  "sort_field k d = (case map_of d k of Some (VDatetime t) \<Rightarrow> Some t | _ \<Rightarrow> None)"

definition cursor_sort :: "string \<Rightarrow> int \<Rightarrow> doc list \<Rightarrow> doc list" where
  "cursor_sort k direction c =
     (if direction < 0 then rev (sort_key (sort_field k) (rev c))
      else sort_key (sort_field k) c)"

text \<open>
  \<^verbatim>\<open>cursor.limit(n)\<close>: a limit of 0 is no limit, and the server takes the absolute
  value of a negative one.
\<close>

definition cursor_limit :: "int \<Rightarrow> doc list \<Rightarrow> doc list" where
  "cursor_limit n c = (if n = 0 then c else take (nat \<bar>n\<bar>) c)"

text \<open>
  \<^verbatim>\<open>update_one(filter, {"$set": s, "$setOnInsert": i}, upsert)\<close> changes the first
  document that matches, in place. With \<open>upsert\<close> and no match it inserts a document made
  of a new \<^verbatim>\<open>_id\<close>, the equality fields of the filter, and both field lists. The result
  is the collection and \<^verbatim>\<open>matched_count\<close>.
\<close>

definition apply_set :: "doc \<Rightarrow> doc \<Rightarrow> doc" where
  "apply_set s d = fold (\<lambda>(k, v). AList.update k v) s d"

fun update_first :: "(doc \<Rightarrow> bool) \<Rightarrow> (doc \<Rightarrow> doc) \<Rightarrow> doc list \<Rightarrow> doc list option" where
  "update_first P f [] = None"
| "update_first P f (d # ds) =
     (if P d then Some (f d # ds) else map_option ((#) d) (update_first P f ds))"

fun eq_fields :: "query \<Rightarrow> doc" where
  "eq_fields [] = []"
| "eq_fields ((k, Is v) # q) = (k, v) # eq_fields q"
| "eq_fields (_ # q) = eq_fields q"

definition update_one :: "query \<Rightarrow> doc \<Rightarrow> doc \<Rightarrow> bool \<Rightarrow> ObjectId \<Rightarrow> doc list \<Rightarrow> doc list \<times> nat" where
  "update_one q set_fields set_on_insert upsert new_id c =
     (case update_first (matches q) (apply_set set_fields) c of
        Some c' \<Rightarrow> (c', 1)
      | None \<Rightarrow>
          if upsert
          then (c @ [apply_set (eq_fields q @ set_fields @ set_on_insert) [(''_id'', VOid new_id)]], 0)
          else (c, 0))"

definition insert_one :: "ObjectId \<Rightarrow> doc \<Rightarrow> doc list \<Rightarrow> doc list" where
  "insert_one new_id d c = c @ [(''_id'', VOid new_id) # d]"

record database =
  profile :: "doc list"
  match :: "doc list"
  message :: "doc list"

section \<open>Schemas\<close>

text \<open>
  The request bodies. The pattern \<^verbatim>\<open>^(like|dislike)$\<close> on \<^verbatim>\<open>action\<close> is checked by the
  framework before the handler runs; the handler is modelled for every string.
\<close>

record ProfileDetails =
  user_id :: string
  nickname :: string
  bio :: "string option"
  tags :: "string list"
  photos :: "string list"
  age :: "int option"

record ProfileUpdate =
  user_id :: string
  nickname :: "string option"
  bio :: "string option"
  tags :: "string list option"
  photos :: "string list option"
  age :: "int option"

record LikeRequest =
  user_id :: string
  target_id :: string
  action :: string

record SendMessageRequest =
  user_id :: string
  peer_id :: string
  text' :: string

section \<open>Profile\<close>

text \<open>
  A handler that writes returns its response (or the exception it raises) together with
  the database it leaves. Every reading of the clock (\<^verbatim>\<open>datetime.utcnow()\<close>) and every
  \<^verbatim>\<open>_id\<close> the store assigns is an argument of the handler.
\<close>

definition opt_val :: "('a \<Rightarrow> val) \<Rightarrow> 'a option \<Rightarrow> val" where
  "opt_val f x = (case x of None \<Rightarrow> VNone | Some y \<Rightarrow> f y)"

definition str_list :: "string list \<Rightarrow> val" where
  "str_list xs = VList (map VStr xs)"

definition create_or_complete_profile ::
  "pylib \<Rightarrow> database \<Rightarrow> ProfileDetails \<Rightarrow> datetime \<Rightarrow> datetime \<Rightarrow> ObjectId \<Rightarrow> (error + doc option) \<times> database" where
  "create_or_complete_profile L db details now_set now_insert new_id =
     (case to_oid L (ProfileDetails.user_id details) of
        Inl e \<Rightarrow> (Inl e, db)
      | Inr user_oid \<Rightarrow>
          let set_fields =
                [(''user_id'', VOid user_oid),
                 (''nickname'', VStr (ProfileDetails.nickname details)),
                 (''bio'', opt_val VStr (ProfileDetails.bio details)),
                 (''tags'', str_list (ProfileDetails.tags details)),
                 (''photos'', str_list (ProfileDetails.photos details)),
                 (''age'', opt_val VInt (ProfileDetails.age details)),
                 (''updated_at'', VDatetime now_set)];
              db' = db\<lparr>profile :=
                      fst (update_one [(''user_id'', Is (VOid user_oid))] set_fields
                             [(''created_at'', VDatetime now_insert)] True new_id (profile db))\<rparr>;
              prof = find_one [(''user_id'', Is (VOid user_oid))] (profile db')
          in (Inr (serialize L prof), db'))"

definition get_my_profile :: "pylib \<Rightarrow> database \<Rightarrow> string \<Rightarrow> error + doc option" where
  "get_my_profile L db user_id' =
     (case to_oid L user_id' of
        Inl e \<Rightarrow> Inl e
      | Inr user_oid \<Rightarrow>
          let prof = find_one [(''user_id'', Is (VOid user_oid))] (profile db)
          in if \<not> truthy_doc prof then Inl (HTTPException 404 ''Profile not found'')
             else Inr (serialize L prof))"

definition model_dump :: "ProfileUpdate \<Rightarrow> doc" where
  "model_dump payload =
     [(''user_id'', VStr (ProfileUpdate.user_id payload)),
      (''nickname'', opt_val VStr (ProfileUpdate.nickname payload)),
      (''bio'', opt_val VStr (ProfileUpdate.bio payload)),
      (''tags'', opt_val str_list (ProfileUpdate.tags payload)),
      (''photos'', opt_val str_list (ProfileUpdate.photos payload)),
      (''age'', opt_val VInt (ProfileUpdate.age payload))]"

definition update_profile ::
  "pylib \<Rightarrow> database \<Rightarrow> ProfileUpdate \<Rightarrow> datetime \<Rightarrow> (error + doc option) \<times> database" where
  "update_profile L db payload now =
     (case to_oid L (ProfileUpdate.user_id payload) of
        Inl e \<Rightarrow> (Inl e, db)
      | Inr user_oid \<Rightarrow>
          let changes = filter (\<lambda>(k, v). k \<noteq> ''user_id'' \<and> v \<noteq> VNone) (model_dump payload)
          in if changes = [] then (Inl (HTTPException 400 ''No changes provided''), db)
             else
               let changes = AList.update ''updated_at'' (VDatetime now) changes;
                   res = update_one [(''user_id'', Is (VOid user_oid))] changes [] False 0 (profile db);
                   db' = db\<lparr>profile := fst res\<rparr>
               in if snd res = 0 then (Inl (HTTPException 404 ''Profile not found''), db')
                  else (Inr (serialize L (find_one [(''user_id'', Is (VOid user_oid))] (profile db'))), db'))"

section \<open>Discovery and likes\<close>

text \<open>
  The loop of \<^verbatim>\<open>next_profile\<close> over the sorted candidates: \<^verbatim>\<open>cand["user_id"]\<close> raises
  \<^verbatim>\<open>KeyError\<close> on a candidate without the field; falling out of the loop answers
  \<^verbatim>\<open>{"message": "No more profiles"}\<close>.
\<close>

fun next_loop :: "pylib \<Rightarrow> val set \<Rightarrow> doc list \<Rightarrow> error + doc option" where
  "next_loop L acted_ids [] = Inr (Some [(''message'', VStr ''No more profiles'')])"
| "next_loop L acted_ids (cand # candidates) =
     (case getitem cand ''user_id'' of
        Inl e \<Rightarrow> Inl e
      | Inr u \<Rightarrow>
          if u \<notin> acted_ids then Inr (serialize L (Some cand))
          else next_loop L acted_ids candidates)"

definition next_profile :: "pylib \<Rightarrow> database \<Rightarrow> string \<Rightarrow> error + doc option" where
  "next_profile L db user_id' =
     (case to_oid L user_id' of
        Inl e \<Rightarrow> Inl e
      | Inr user_oid \<Rightarrow>
          let acted_ids = set (map (\<lambda>m. get m ''target_id'')
                                 (coll_find [(''user_id'', Is (VOid user_oid))] (match db)));
              query = [(''user_id'', Ne (VOid user_oid))];
              candidates = cursor_sort ''updated_at'' (- 1) (coll_find query (profile db))
          in next_loop L acted_ids candidates)"

definition like_profile ::
  "pylib \<Rightarrow> database \<Rightarrow> LikeRequest \<Rightarrow> datetime \<Rightarrow> datetime \<Rightarrow> ObjectId \<Rightarrow> (error + doc) \<times> database" where
  "like_profile L db payload now_set now_insert new_id =
     (case to_oid L (LikeRequest.user_id payload) of
        Inl e \<Rightarrow> (Inl e, db)
      | Inr user_oid \<Rightarrow>
          (case to_oid L (target_id payload) of
             Inl e \<Rightarrow> (Inl e, db)
           | Inr target_oid \<Rightarrow>
               if user_oid = target_oid then (Inl (HTTPException 400 ''Cannot like yourself''), db)
               else
                 let db' = db\<lparr>match :=
                             fst (update_one
                                    [(''user_id'', Is (VOid user_oid)), (''target_id'', Is (VOid target_oid))]
                                    [(''action'', VStr (action payload)), (''updated_at'', VDatetime now_set)]
                                    [(''created_at'', VDatetime now_insert)] True new_id (match db))\<rparr>;
                     matched =
                       (if action payload = ''like''
                        then find_one [(''user_id'', Is (VOid target_oid)), (''target_id'', Is (VOid user_oid)),
                                       (''action'', Is (VStr ''like''))] (match db') \<noteq> None
                        else False)
                 in (Inr [(''matched'', VBool matched)], db')))"

section \<open>Chats\<close>

text \<open>
  The loop of \<^verbatim>\<open>list_chats\<close> over the caller's likes, with the list \<open>peers\<close> built so far.
\<close>

fun chats_loop :: "pylib \<Rightarrow> database \<Rightarrow> ObjectId \<Rightarrow> doc option list \<Rightarrow> doc list \<Rightarrow> error + doc option list" where
  "chats_loop L db user_oid peers [] = Inr peers"
| "chats_loop L db user_oid peers (like # my_likes) =
     (case getitem like ''target_id'' of
        Inl e \<Rightarrow> Inl e
      | Inr t \<Rightarrow>
          let other_like = find_one [(''user_id'', Is t), (''target_id'', Is (VOid user_oid)),
                                     (''action'', Is (VStr ''like''))] (match db)
          in if truthy_doc other_like
             then
               let peer_prof = find_one [(''user_id'', Is t)] (profile db)
               in if truthy_doc peer_prof
                  then chats_loop L db user_oid (peers @ [serialize L peer_prof]) my_likes
                  else chats_loop L db user_oid peers my_likes
             else chats_loop L db user_oid peers my_likes)"

definition list_chats :: "pylib \<Rightarrow> database \<Rightarrow> string \<Rightarrow> error + doc option list" where
  "list_chats L db user_id' =
     (case to_oid L user_id' of
        Inl e \<Rightarrow> Inl e
      | Inr user_oid \<Rightarrow>
          let my_likes = coll_find [(''user_id'', Is (VOid user_oid)), (''action'', Is (VStr ''like''))] (match db)
          in chats_loop L db user_oid [] my_likes)"

definition get_messages :: "pylib \<Rightarrow> database \<Rightarrow> string \<Rightarrow> string \<Rightarrow> int \<Rightarrow> error + doc option list" where
  "get_messages L db user_id' peer_id' limit =
     (case to_oid L user_id' of
        Inl e \<Rightarrow> Inl e
      | Inr u \<Rightarrow>
          (case to_oid L peer_id' of
             Inl e \<Rightarrow> Inl e
           | Inr p \<Rightarrow>
               let q = [(''$or'', Or [[(''sender_id'', VOid u), (''receiver_id'', VOid p)],
                                      [(''sender_id'', VOid p), (''receiver_id'', VOid u)]])];
                   msgs = cursor_limit limit (cursor_sort ''created_at'' 1 (coll_find q (message db)))
               in Inr (map (\<lambda>m. serialize L (Some m)) msgs)))"

definition send_message ::
  "pylib \<Rightarrow> database \<Rightarrow> SendMessageRequest \<Rightarrow> datetime \<Rightarrow> ObjectId \<Rightarrow> (error + doc option) \<times> database" where
  "send_message L db payload now new_id =
     (case to_oid L (SendMessageRequest.user_id payload) of
        Inl e \<Rightarrow> (Inl e, db)
      | Inr u \<Rightarrow>
          (case to_oid L (peer_id payload) of
             Inl e \<Rightarrow> (Inl e, db)
           | Inr p \<Rightarrow>
               let doc = [(''sender_id'', VOid u), (''receiver_id'', VOid p),
                          (''text'', VStr (text' payload)), (''created_at'', VDatetime now)];
                   db' = db\<lparr>message := insert_one new_id doc (message db)\<rparr>;
                   saved = find_one [(''_id'', Is (VOid new_id))] (message db')
               in (Inr (serialize L saved), db')))"

section \<open>Sequences of requests\<close>

text \<open>
  The requests that write, each with the clock readings and the \<^verbatim>\<open>_id\<close> it consumes. The
  handlers that only read (\<^verbatim>\<open>get_my_profile\<close>, \<^verbatim>\<open>next_profile\<close>, \<^verbatim>\<open>list_chats\<close>,
  \<^verbatim>\<open>get_messages\<close>) leave the database as it is; \<^verbatim>\<open>signup\<close> and \<^verbatim>\<open>login\<close> touch
  \<^verbatim>\<open>db["user"]\<close> only, a collection that no other handler uses.
\<close>

datatype request =
    Details ProfileDetails datetime datetime ObjectId
  | Update ProfileUpdate datetime
  | Like LikeRequest datetime datetime ObjectId
  | Send SendMessageRequest datetime ObjectId

fun step :: "pylib \<Rightarrow> database \<Rightarrow> request \<Rightarrow> database" where
  "step L db (Details details t1 t2 n) = snd (create_or_complete_profile L db details t1 t2 n)"
| "step L db (Update payload t) = snd (update_profile L db payload t)"
| "step L db (Like payload t1 t2 n) = snd (like_profile L db payload t1 t2 n)"
| "step L db (Send payload t n) = snd (send_message L db payload t n)"

definition run :: "pylib \<Rightarrow> database \<Rightarrow> request list \<Rightarrow> database" where
  "run L db reqs = foldl (step L) db reqs"

definition empty_db :: database where
  "empty_db = \<lparr>profile = [], match = [], message = []\<rparr>"

section \<open>Reading the ledger\<close>

text \<open>The action records of the ordered pair \<open>(A, B)\<close>, and whether \<open>A\<close> likes \<open>B\<close>.\<close>

definition records_for :: "database \<Rightarrow> ObjectId \<Rightarrow> ObjectId \<Rightarrow> doc list" where
  "records_for db A B =
     filter (\<lambda>d. map_of d ''user_id'' = Some (VOid A) \<and> map_of d ''target_id'' = Some (VOid B)) (match db)"

definition likes :: "database \<Rightarrow> ObjectId \<Rightarrow> ObjectId \<Rightarrow> bool" where
  "likes db A B = list_ex (\<lambda>d. map_of d ''action'' = Some (VStr ''like'')) (records_for db A B)"

definition profiles_of :: "database \<Rightarrow> ObjectId \<Rightarrow> doc list" where
  "profiles_of db B = filter (\<lambda>d. map_of d ''user_id'' = Some (VOid B)) (profile db)"

text \<open>
  What every document written by the handlers has: a profile has an ObjectId \<^verbatim>\<open>user_id\<close>
  and a datetime \<^verbatim>\<open>updated_at\<close>, an action record has ObjectIds \<^verbatim>\<open>user_id\<close> and
  \<^verbatim>\<open>target_id\<close>.
\<close>

definition is_oid :: "doc \<Rightarrow> string \<Rightarrow> bool" where
  "is_oid d k = (case map_of d k of Some (VOid _) \<Rightarrow> True | _ \<Rightarrow> False)"

definition is_datetime :: "doc \<Rightarrow> string \<Rightarrow> bool" where
  "is_datetime d k = (case map_of d k of Some (VDatetime _) \<Rightarrow> True | _ \<Rightarrow> False)"

definition well_formed :: "database \<Rightarrow> bool" where
  "well_formed db =
     (list_all (\<lambda>d. is_oid d ''user_id'' \<and> is_datetime d ''updated_at'') (profile db) \<and>
      list_all (\<lambda>d. is_oid d ''user_id'' \<and> is_oid d ''target_id'') (match db))"

section \<open>Derived notions\<close>

text \<open>
  The document that the upsert of \<^verbatim>\<open>like_profile\<close> inserts for a first decision, and the
  \<^verbatim>\<open>match\<close> collection that the upsert leaves.
\<close>

definition new_record :: "ObjectId \<Rightarrow> ObjectId \<Rightarrow> ObjectId \<Rightarrow> string \<Rightarrow> datetime \<Rightarrow> datetime \<Rightarrow> doc" where
  "new_record n A B act t1 t2 =
     [(''_id'', VOid n), (''user_id'', VOid A), (''target_id'', VOid B), (''action'', VStr act),
      (''updated_at'', VDatetime t1), (''created_at'', VDatetime t2)]"

definition upsert_match :: "ObjectId \<Rightarrow> ObjectId \<Rightarrow> string \<Rightarrow> datetime \<Rightarrow> datetime \<Rightarrow> ObjectId \<Rightarrow> doc list \<Rightarrow> doc list" where
  "upsert_match A B act t1 t2 n c = fst (update_one [(''user_id'', Is (VOid A)), (''target_id'', Is (VOid B))]
                    [(''action'', VStr act), (''updated_at'', VDatetime t1)]
                    [(''created_at'', VDatetime t2)] True n c)"

text \<open>
  In \<^verbatim>\<open>next_profile\<close>: the answer when the loop finds nobody, the set \<open>acted_ids\<close> that the
  handler builds, and the candidates the claims call eligible for \<open>A\<close>: profiles of another
  user on whom \<open>A\<close> has no action record.
\<close>

definition no_more :: doc where
  "no_more = [(''message'', VStr ''No more profiles'')]"

definition acted_ids :: "database \<Rightarrow> ObjectId \<Rightarrow> val set" where
  "acted_ids db A = set (map (\<lambda>m. get m ''target_id'') (coll_find [(''user_id'', Is (VOid A))] (match db)))"

definition eligible :: "database \<Rightarrow> ObjectId \<Rightarrow> doc \<Rightarrow> bool" where
  "eligible db A c =
     (case map_of c ''user_id'' of
        Some (VOid X) \<Rightarrow> X \<noteq> A \<and> records_for db A X = []
      | _ \<Rightarrow> False)"

text \<open>
  In \<^verbatim>\<open>list_chats\<close>: what one turn of the loop appends to \<open>peers\<close>, and whether the profile
  of user \<open>B\<close> is in an answer.
\<close>

definition peer_of :: "pylib \<Rightarrow> database \<Rightarrow> ObjectId \<Rightarrow> doc \<Rightarrow> doc option list" where
  "peer_of L db user_oid like =
     (case map_of like ''target_id'' of
        None \<Rightarrow> []
      | Some t \<Rightarrow>
          if truthy_doc (find_one [(''user_id'', Is t), (''target_id'', Is (VOid user_oid)),
                                   (''action'', Is (VStr ''like''))] (match db)) \<and>
             truthy_doc (find_one [(''user_id'', Is t)] (profile db))
          then [serialize L (find_one [(''user_id'', Is t)] (profile db))]
          else [])"

definition appears :: "doc option list \<Rightarrow> ObjectId \<Rightarrow> bool" where
  "appears peers B =
     list_ex (\<lambda>p. case p of Some d \<Rightarrow> map_of d ''user_id'' = Some (VOid B) | None \<Rightarrow> False) peers"

text \<open>
  In \<^verbatim>\<open>get_messages\<close>: a message belongs to the conversation of \<open>A\<close> and \<open>B\<close> when its
  sender and receiver are the two of them, in either order.
\<close>

definition in_conversation :: "ObjectId \<Rightarrow> ObjectId \<Rightarrow> doc \<Rightarrow> bool" where
  "in_conversation A B m \<longleftrightarrow>
     {map_of m ''sender_id'', map_of m ''receiver_id''} = {Some (VOid A), Some (VOid B)}"

text \<open>The part of \<open>well_formed\<close> that speaks of one profile document.\<close>

definition profile_ok :: "doc \<Rightarrow> bool" where
  "profile_ok d \<longleftrightarrow> is_oid d ''user_id'' \<and> is_datetime d ''updated_at''"

section \<open>A sample library and sample data\<close>

text \<open>
  An instance of the library parameters, for evaluating the handlers on concrete requests:
  an id is 24 hexadecimal digits, printed back in lower case; a datetime is printed as 20
  decimal digits. The users \<open>A\<close>, \<open>B\<close> and \<open>C\<close> have the ObjectIds 10, 11 and 12.
\<close>

definition hex_val :: "char \<Rightarrow> nat option" where
  "hex_val c =
     (let i = (of_char c :: nat)
      in if 48 \<le> i \<and> i \<le> 57 then Some (i - 48)
         else if 97 \<le> i \<and> i \<le> 102 then Some (i - 87)
         else if 65 \<le> i \<and> i \<le> 70 then Some (i - 55)
         else None)"

fun parse_hex :: "nat \<Rightarrow> string \<Rightarrow> nat option" where
  "parse_hex acc [] = Some acc"
| "parse_hex acc (c # cs) = (case hex_val c of None \<Rightarrow> None | Some v \<Rightarrow> parse_hex (16 * acc + v) cs)"

fun digits :: "nat \<Rightarrow> nat \<Rightarrow> nat \<Rightarrow> string" where
  "digits base 0 n = []"
| "digits base (Suc k) n = digits base k (n div base) @ [''0123456789abcdef'' ! (n mod base mod 16)]"

definition sample_lib :: pylib where
  "sample_lib =
     \<lparr>ObjectId_of = (\<lambda>s. if length s = 24 then parse_hex 0 s else None),
      str = (\<lambda>v. case v of VOid n \<Rightarrow> digits 16 24 n | _ \<Rightarrow> []),
      isoformat = (\<lambda>t. digits 10 20 (nat t))\<rparr>"

definition id_A :: string where "id_A = ''00000000000000000000000a''"
definition id_B :: string where "id_B = ''00000000000000000000000b''"
definition id_C :: string where "id_C = ''00000000000000000000000c''"

text \<open>Request sequences, and the documents and databases they produce.\<close>

definition dislike_AB :: "request list" where
  "dislike_AB = [Like \<lparr>LikeRequest.user_id = id_A, target_id = id_B, action = ''dislike''\<rparr> 1 2 100]"

definition two_profiles :: "request list" where
  "two_profiles =
     [Details \<lparr>ProfileDetails.user_id = id_B, nickname = ''bob'', bio = Some ''hello'', tags = [''tea''],
               photos = [], age = Some 30\<rparr> 1 2 100,
      Details \<lparr>ProfileDetails.user_id = id_C, nickname = ''carol'', bio = None, tags = [],
               photos = [], age = None\<rparr> 3 4 101]"

definition rename_B :: "request list" where
  "rename_B =
     [Update \<lparr>ProfileUpdate.user_id = id_B, nickname = Some ''bobby'', bio = None, tags = None,
              photos = None, age = None\<rparr> 7]"

definition mutual_likes :: "request list" where
  "mutual_likes =
     [Like \<lparr>LikeRequest.user_id = id_A, target_id = id_B, action = ''like''\<rparr> 1 2 100,
      Like \<lparr>LikeRequest.user_id = id_B, target_id = id_A, action = ''like''\<rparr> 3 4 101]"

definition three_messages :: "request list" where
  "three_messages =
     [Send \<lparr>SendMessageRequest.user_id = id_A, peer_id = id_B, text' = ''hi''\<rparr> 10 200,
      Send \<lparr>SendMessageRequest.user_id = id_B, peer_id = id_A, text' = ''yo''\<rparr> 20 201,
      Send \<lparr>SendMessageRequest.user_id = id_A, peer_id = id_C, text' = ''hey''\<rparr> 30 202]"

definition profile_A :: doc where
  "profile_A = [(''_id'', VOid 99), (''user_id'', VOid 10),
       (''nickname'', VStr ''alice''), (''bio'', VNone),
       (''tags'', VList []), (''photos'', VList []), (''age'', VInt 28),
       (''updated_at'', VDatetime 0), (''created_at'', VDatetime 0)]"

definition profile_B :: doc where
  "profile_B = [(''_id'', VOid 100), (''user_id'', VOid 11),
       (''nickname'', VStr ''bob''), (''bio'', VStr ''hello''),
       (''tags'', VList [VStr ''tea'']), (''photos'', VList []),
       (''age'', VInt 30), (''updated_at'', VDatetime 1),
       (''created_at'', VDatetime 2)]"

definition profile_C :: doc where
  "profile_C = [(''_id'', VOid 101), (''user_id'', VOid 12),
       (''nickname'', VStr ''carol''), (''bio'', VNone),
       (''tags'', VList []), (''photos'', VList []), (''age'', VNone),
       (''updated_at'', VDatetime 3), (''created_at'', VDatetime 4)]"

definition shown_C :: doc where
  "shown_C = [(''user_id'', VOid 12), (''nickname'', VStr ''carol''),
        (''bio'', VNone), (''tags'', VList []), (''photos'', VList []),
        (''age'', VNone), (''updated_at'', VStr ''00000000000000000003''),
        (''created_at'', VStr ''00000000000000000004''),
        (''id'', VStr ''000000000000000000000065'')]"

definition message_1 :: doc where
  "message_1 = [(''_id'', VOid 200), (''sender_id'', VOid 10), (''receiver_id'', VOid 11),
                (''text'', VStr ''hi''), (''created_at'', VDatetime 10)]"

definition message_2 :: doc where
  "message_2 = [(''_id'', VOid 201), (''sender_id'', VOid 11), (''receiver_id'', VOid 10),
                (''text'', VStr ''yo''), (''created_at'', VDatetime 20)]"

definition message_3 :: doc where
  "message_3 = [(''_id'', VOid 202), (''sender_id'', VOid 10), (''receiver_id'', VOid 12),
                (''text'', VStr ''hey''), (''created_at'', VDatetime 30)]"

definition shown_1 :: doc where
  "shown_1 = [(''sender_id'', VOid 10), (''receiver_id'', VOid 11), (''text'', VStr ''hi''),
              (''created_at'', VStr ''00000000000000000010''), (''id'', VStr ''0000000000000000000000c8'')]"

definition shown_2 :: doc where
  "shown_2 = [(''sender_id'', VOid 11), (''receiver_id'', VOid 10), (''text'', VStr ''yo''),
              (''created_at'', VStr ''00000000000000000020''), (''id'', VStr ''0000000000000000000000c9'')]"

definition both_profiles :: database where
  "both_profiles = \<lparr>profile = [profile_B, profile_C], match = [], message = []\<rparr>"

definition after_dislike :: database where
  "after_dislike =
     \<lparr>profile = [AList.update ''updated_at'' (VDatetime 7) (AList.update ''nickname'' (VStr ''bobby'') profile_B),
                 profile_C],
      match = [new_record 102 10 11 ''dislike'' 5 6], message = []\<rparr>"

definition one_sided :: database where
  "one_sided =
     \<lparr>profile = [profile_A, profile_B],
      match = [new_record 102 10 11 ''like'' 5 6],
      message = []\<rparr>"

definition mutual_no_profile :: database where
  "mutual_no_profile =
     \<lparr>profile = [],
      match = [new_record 100 10 11 ''like'' 1 2, new_record 101 11 10 ''like'' 3 4],
      message = []\<rparr>"

definition chat_db :: database where
  "chat_db = \<lparr>profile = [], match = [], message = [message_1, message_2, message_3]\<rparr>"

section \<open>Lemmas on the collections\<close>


lemma update_first_None: "update_first P f c = None \<longleftrightarrow> (\<forall>d\<in>set c. \<not> P d)"
  by (induction c) auto

lemma update_first_Some:
  "update_first P f c = Some c' \<Longrightarrow>
     \<exists>pre d post. c = pre @ d # post \<and> (\<forall>x\<in>set pre. \<not> P x) \<and> P d \<and> c' = pre @ f d # post"
proof (induction c arbitrary: c')
  case Nil
  then show ?case by simp
next
  case (Cons x xs)
  show ?case
  proof (cases "P x")
    case True
    with Cons.prems have "c' = f x # xs" by simp
    with True show ?thesis by (intro exI[of _ "[]"] exI[of _ x] exI[of _ xs]) simp
  next
    case False
    with Cons.prems obtain ys where ys: "update_first P f xs = Some ys" "c' = x # ys" by auto
    from Cons.IH[OF ys(1)] obtain pre d post where
      "xs = pre @ d # post" "\<forall>x\<in>set pre. \<not> P x" "P d" "ys = pre @ f d # post" by blast
    with False ys(2) show ?thesis
      by (intro exI[of _ "x # pre"] exI[of _ d] exI[of _ post]) simp
  qed
qed

lemma find_one_None: "find_one q c = None \<longleftrightarrow> (\<forall>d\<in>set c. \<not> matches q d)"
  by (auto simp: find_one_def find_None_iff)

lemma matches_pair [simp]:
  "matches [(k1, Is v1), (k2, Is v2)] d \<longleftrightarrow> map_of d k1 = Some v1 \<and> map_of d k2 = Some v2"
  by (simp add: matches_def)

lemma matches_triple [simp]:
  "matches [(k1, Is v1), (k2, Is v2), (k3, Is v3)] d \<longleftrightarrow>
     map_of d k1 = Some v1 \<and> map_of d k2 = Some v2 \<and> map_of d k3 = Some v3"
  by (simp add: matches_def)

lemma matches_single [simp]: "matches [(k, Is v)] d \<longleftrightarrow> map_of d k = Some v"
  by (simp add: matches_def)

lemma matches_ne [simp]: "matches [(k, Ne v)] d \<longleftrightarrow> map_of d k \<noteq> Some v"
  by (simp add: matches_def)

section \<open>The upsert of \<^verbatim>\<open>like_profile\<close>\<close>

lemma map_of_apply_set2:
  "map_of (apply_set [(k1, v1), (k2, v2)] d) = (map_of d)(k1 \<mapsto> v1, k2 \<mapsto> v2)"
  by (simp add: apply_set_def update_conv')


lemma like_profile_ok:
  assumes "to_oid L a = Inr A" "to_oid L b = Inr B" "A \<noteq> B"
  shows "like_profile L db \<lparr>LikeRequest.user_id = a, target_id = b, action = act\<rparr> t1 t2 n =
    (let c = fst (update_one [(''user_id'', Is (VOid A)), (''target_id'', Is (VOid B))]
                    [(''action'', VStr act), (''updated_at'', VDatetime t1)]
                    [(''created_at'', VDatetime t2)] True n (match db))
     in (Inr [(''matched'', VBool (act = ''like'' \<and> likes (db\<lparr>match := c\<rparr>) B A))], db\<lparr>match := c\<rparr>))"
  using assms
  by (auto simp: like_profile_def Let_def likes_def records_for_def find_one_None list_ex_iff)

lemma like_upsert_cases:
  "(records_for db A B = [] \<and>
      fst (update_one [(''user_id'', Is (VOid A)), (''target_id'', Is (VOid B))]
                    [(''action'', VStr act), (''updated_at'', VDatetime t1)]
                    [(''created_at'', VDatetime t2)] True n (match db)) = match db @ [new_record n A B act t1 t2])
   \<or> (\<exists>pre d post. match db = pre @ d # post \<and> records_for (db\<lparr>match := pre\<rparr>) A B = [] \<and>
         map_of d ''user_id'' = Some (VOid A) \<and> map_of d ''target_id'' = Some (VOid B) \<and>
        fst (update_one [(''user_id'', Is (VOid A)), (''target_id'', Is (VOid B))]
                    [(''action'', VStr act), (''updated_at'', VDatetime t1)]
                    [(''created_at'', VDatetime t2)] True n (match db)) =
          pre @ apply_set [(''action'', VStr act), (''updated_at'', VDatetime t1)] d # post)"
proof (cases "update_first (matches [(''user_id'', Is (VOid A)), (''target_id'', Is (VOid B))])
                 (apply_set [(''action'', VStr act), (''updated_at'', VDatetime t1)]) (match db)")
  case None
  then have "records_for db A B = []"
    by (auto simp: update_first_None records_for_def filter_empty_conv)
  with None show ?thesis by (simp add: update_one_def apply_set_def new_record_def)
next
  case (Some c')
  from update_first_Some[OF Some] obtain pre d post where
    *: "match db = pre @ d # post" "\<forall>x\<in>set pre. \<not> matches [(''user_id'', Is (VOid A)), (''target_id'', Is (VOid B))] x"
     "matches [(''user_id'', Is (VOid A)), (''target_id'', Is (VOid B))] d"
     "c' = pre @ apply_set [(''action'', VStr act), (''updated_at'', VDatetime t1)] d # post" by blast
  then have "records_for (db\<lparr>match := pre\<rparr>) A B = []"
    by (auto simp: records_for_def filter_empty_conv)
  with * Some show ?thesis by (auto simp: update_one_def)
qed



lemma records_for_upsert:
  "records_for (db\<lparr>match := upsert_match A B act t1 t2 n (match db)\<rparr>) X Y =
     (if X = A \<and> Y = B
      then (case records_for db A B of
              [] \<Rightarrow> [new_record n A B act t1 t2]
            | d # ds \<Rightarrow> apply_set [(''action'', VStr act), (''updated_at'', VDatetime t1)] d # ds)
      else records_for db X Y)"
  using like_upsert_cases[of db A B act t1 t2 n]
proof (elim disjE conjE exE)
  assume "records_for db A B = []"
    and "fst (update_one [(''user_id'', Is (VOid A)), (''target_id'', Is (VOid B))]
          [(''action'', VStr act), (''updated_at'', VDatetime t1)] [(''created_at'', VDatetime t2)] True n (match db)) =
         match db @ [new_record n A B act t1 t2]"
  then show ?thesis
    by (auto simp: upsert_match_def records_for_def new_record_def)
next
  fix pre d post
  assume "match db = pre @ d # post" "records_for (db\<lparr>match := pre\<rparr>) A B = []"
    "map_of d ''user_id'' = Some (VOid A)" "map_of d ''target_id'' = Some (VOid B)"
    "fst (update_one [(''user_id'', Is (VOid A)), (''target_id'', Is (VOid B))]
          [(''action'', VStr act), (''updated_at'', VDatetime t1)] [(''created_at'', VDatetime t2)] True n (match db)) =
         pre @ apply_set [(''action'', VStr act), (''updated_at'', VDatetime t1)] d # post"
  then show ?thesis
    by (auto simp: upsert_match_def records_for_def map_of_apply_set2)
qed


lemma like_profile_upsert:
  assumes "to_oid L a = Inr A" "to_oid L b = Inr B" "A \<noteq> B"
  shows "like_profile L db \<lparr>LikeRequest.user_id = a, target_id = b, action = act\<rparr> t1 t2 n =
    (Inr [(''matched'', VBool (act = ''like'' \<and> likes (db\<lparr>match := upsert_match A B act t1 t2 n (match db)\<rparr>) B A))],
     db\<lparr>match := upsert_match A B act t1 t2 n (match db)\<rparr>)"
  using like_profile_ok[OF assms] by (simp add: upsert_match_def Let_def)

lemma likes_upsert:
  "likes (db\<lparr>match := upsert_match A B act t1 t2 n (match db)\<rparr>) X Y =
     (if X = A \<and> Y = B
      then (case records_for db A B of
              [] \<Rightarrow> act = ''like''
            | d # ds \<Rightarrow> act = ''like'' \<or> list_ex (\<lambda>d. map_of d ''action'' = Some (VStr ''like'')) ds)
      else likes db X Y)"
  by (auto simp: likes_def records_for_upsert new_record_def map_of_apply_set2 split: list.splits)

text \<open>
  C1. For users \<open>A \<noteq> B\<close> with no action record between them, \<^verbatim>\<open>like_profile\<close> with
  action \<^verbatim>\<open>like\<close> from \<open>A\<close> to \<open>B\<close> answers \<^verbatim>\<open>matched = False\<close>, and the same request from
  \<open>B\<close> to \<open>A\<close> right after it answers \<^verbatim>\<open>matched = True\<close>: the reciprocal like is looked
  up after the caller's own like is written.
\<close>

theorem mutual_like_detected:
  assumes "to_oid L a = Inr A" and "to_oid L b = Inr B" and "A \<noteq> B"
    and "records_for db A B = []" and "records_for db B A = []"
  shows "fst (like_profile L db \<lparr>LikeRequest.user_id = a, target_id = b, action = ''like''\<rparr> t1 t2 n)
           = Inr [(''matched'', VBool False)] \<and>
         fst (like_profile L
                (snd (like_profile L db \<lparr>LikeRequest.user_id = a, target_id = b, action = ''like''\<rparr> t1 t2 n))
                \<lparr>LikeRequest.user_id = b, target_id = a, action = ''like''\<rparr> t3 t4 n')
           = Inr [(''matched'', VBool True)]"
proof -
  let ?db1 = "db\<lparr>match := upsert_match A B ''like'' t1 t2 n (match db)\<rparr>"
  have first: "like_profile L db \<lparr>LikeRequest.user_id = a, target_id = b, action = ''like''\<rparr> t1 t2 n =
      (Inr [(''matched'', VBool (likes ?db1 B A))], ?db1)"
    using like_profile_upsert[OF assms(1,2,3), where act = "''like''"] by simp
  have no: "\<not> likes ?db1 B A"
    using assms(3,5) by (simp add: likes_upsert) (simp add: likes_def)
  have yes: "likes ?db1 A B"
    using assms(4) by (simp add: likes_upsert)
  have second: "like_profile L ?db1 \<lparr>LikeRequest.user_id = b, target_id = a, action = ''like''\<rparr> t3 t4 n' =
      (Inr [(''matched'', VBool (likes (?db1\<lparr>match := upsert_match B A ''like'' t3 t4 n' (match ?db1)\<rparr>) A B))],
       ?db1\<lparr>match := upsert_match B A ''like'' t3 t4 n' (match ?db1)\<rparr>)"
    using like_profile_upsert[OF assms(2,1) assms(3)[symmetric], where db = ?db1 and act = "''like''"] by simp
  have "likes (?db1\<lparr>match := upsert_match B A ''like'' t3 t4 n' (match ?db1)\<rparr>) A B"
    using yes assms(3) likes_upsert[where db = ?db1 and A = B and B = A and X = A and Y = B] by simp
  with first second no show ?thesis by simp
qed

lemma sample_ids:
  "to_oid sample_lib id_A = Inr 10" "to_oid sample_lib id_B = Inr 11" "to_oid sample_lib id_C = Inr 12"
  by (simp_all add: to_oid_def sample_lib_def id_A_def id_B_def id_C_def hex_val_def)

theorem mutual_like_detected_witness:
  "to_oid sample_lib id_A = Inr 10 \<and> to_oid sample_lib id_B = Inr 11 \<and> (10::nat) \<noteq> 11 \<and>
   records_for empty_db 10 11 = [] \<and> records_for empty_db 11 10 = [] \<and>
   fst (like_profile sample_lib empty_db \<lparr>LikeRequest.user_id = id_A, target_id = id_B, action = ''like''\<rparr> 1 2 100)
           = Inr [(''matched'', VBool False)] \<and>
   fst (like_profile sample_lib
                (snd (like_profile sample_lib empty_db \<lparr>LikeRequest.user_id = id_A, target_id = id_B, action = ''like''\<rparr> 1 2 100))
                \<lparr>LikeRequest.user_id = id_B, target_id = id_A, action = ''like''\<rparr> 3 4 101)
           = Inr [(''matched'', VBool True)]"
proof -
  have h: "records_for empty_db 10 11 = []" "records_for empty_db 11 10 = []" "(10::nat) \<noteq> 11"
    by (simp_all add: records_for_def empty_db_def)
  show ?thesis
    using mutual_like_detected[OF sample_ids(1) sample_ids(2) h(3) h(1) h(2), of 1 2 100 3 4 101] h sample_ids
    by simp
qed

text \<open>
  C2. A decision whose actor and target are the same user is rejected with
  \<^verbatim>\<open>HTTPException(400, "Cannot like yourself")\<close>, whatever the action, and the database
  is left as it was.
\<close>

theorem self_like_rejected:
  assumes "to_oid L a = Inr A" and "to_oid L a' = Inr A"
  shows "like_profile L db \<lparr>LikeRequest.user_id = a, target_id = a', action = act\<rparr> t1 t2 n =
           (Inl (HTTPException 400 ''Cannot like yourself''), db)"
  using assms by (simp add: like_profile_def)

theorem self_like_rejected_witness:
  "to_oid sample_lib id_A = Inr 10 \<and> to_oid sample_lib ''00000000000000000000000A'' = Inr 10 \<and>
   like_profile sample_lib empty_db
      \<lparr>LikeRequest.user_id = id_A, target_id = ''00000000000000000000000A'', action = ''dislike''\<rparr> 1 2 100 =
           (Inl (HTTPException 400 ''Cannot like yourself''), empty_db)"
proof -
  have h: "to_oid sample_lib ''00000000000000000000000A'' = Inr 10"
    by (simp add: to_oid_def sample_lib_def hex_val_def)
  show ?thesis
    using self_like_rejected[OF sample_ids(1) h, of empty_db "''dislike''" 1 2 100] h sample_ids(1) by simp
qed

section \<open>The ledger along a sequence of requests\<close>

lemma like_profile_cases:
  "snd (like_profile L db payload t1 t2 n) = db \<or>
   (\<exists>A B. A \<noteq> B \<and>
      snd (like_profile L db payload t1 t2 n) = db\<lparr>match := upsert_match A B (action payload) t1 t2 n (match db)\<rparr>)"
  by (auto simp: like_profile_def upsert_match_def Let_def split: sum.splits)

lemma profile_step_match:
  "match (snd (create_or_complete_profile L db details t1 t2 n)) = match db"
  "match (snd (update_profile L db payload t)) = match db"
  "match (snd (send_message L db msg t n)) = match db"
  by (auto simp: create_or_complete_profile_def update_profile_def send_message_def Let_def split: sum.splits)

lemma step_match:
  "match (step L db req) = match db \<or>
   (\<exists>A B act t1 t2 n. A \<noteq> B \<and> match (step L db req) = upsert_match A B act t1 t2 n (match db))"
proof (cases req)
  case (Like payload t1 t2 n)
  from like_profile_cases[of L db payload t1 t2 n] show ?thesis
  proof
    assume "snd (like_profile L db payload t1 t2 n) = db"
    with Like show ?thesis by simp
  next
    assume "\<exists>A B. A \<noteq> B \<and> snd (like_profile L db payload t1 t2 n) =
              db\<lparr>match := upsert_match A B (action payload) t1 t2 n (match db)\<rparr>"
    then obtain A B where "A \<noteq> B" "snd (like_profile L db payload t1 t2 n) =
              db\<lparr>match := upsert_match A B (action payload) t1 t2 n (match db)\<rparr>" by blast
    with Like have "A \<noteq> B \<and> match (step L db req) = upsert_match A B (action payload) t1 t2 n (match db)"
      by simp
    then show ?thesis by blast
  qed
qed (simp_all add: profile_step_match)

lemma records_for_match: "match db' = c \<Longrightarrow> records_for db' X Y = records_for (db\<lparr>match := c\<rparr>) X Y"
  by (simp add: records_for_def)

lemma length_records_upsert:
  assumes "length (records_for db X Y) \<le> 1" and "length (records_for db A B) \<le> 1"
  shows "length (records_for (db\<lparr>match := upsert_match A B act t1 t2 n (match db)\<rparr>) X Y) \<le> 1"
  using assms by (auto simp: records_for_upsert split: list.splits)

lemma nonempty_records_upsert:
  assumes "records_for db X Y \<noteq> []"
  shows "records_for (db\<lparr>match := upsert_match A B act t1 t2 n (match db)\<rparr>) X Y \<noteq> []"
  using assms by (simp add: records_for_upsert split: list.splits)

lemma step_unique:
  assumes "\<And>X Y. length (records_for db X Y) \<le> 1"
  shows "length (records_for (step L db req) X Y) \<le> 1"
proof -
  from step_match[of L db req] show ?thesis
  proof (elim disjE exE conjE)
    assume "match (step L db req) = match db"
    then have "records_for (step L db req) X Y = records_for db X Y"
      by (simp add: records_for_def)
    with assms show ?thesis by simp
  next
    fix A B act t1 t2 n
    assume "match (step L db req) = upsert_match A B act t1 t2 n (match db)"
    from records_for_match[OF this, where db = db] length_records_upsert[OF assms assms]
    show ?thesis by simp
  qed
qed

lemma step_keeps_records:
  assumes "records_for db X Y \<noteq> []"
  shows "records_for (step L db req) X Y \<noteq> []"
proof -
  from step_match[of L db req] show ?thesis
  proof (elim disjE exE conjE)
    assume "match (step L db req) = match db"
    then have "records_for (step L db req) X Y = records_for db X Y"
      by (simp add: records_for_def)
    with assms show ?thesis by simp
  next
    fix A B act t1 t2 n
    assume "match (step L db req) = upsert_match A B act t1 t2 n (match db)"
    from records_for_match[OF this, where db = db] nonempty_records_upsert[OF assms]
    show ?thesis by simp
  qed
qed

lemma run_unique:
  assumes "\<And>X Y. length (records_for db X Y) \<le> 1"
  shows "length (records_for (run L db reqs) X Y) \<le> 1"
  using assms
proof (induction reqs arbitrary: db X Y)
  case Nil
  then show ?case by (simp add: run_def)
next
  case (Cons r rs)
  have "length (records_for (run L (step L db r) rs) X Y) \<le> 1"
    by (rule Cons.IH) (rule step_unique, rule Cons.prems)
  then show ?case by (simp add: run_def)
qed

lemma run_keeps_records:
  assumes "records_for db X Y \<noteq> []"
  shows "records_for (run L db reqs) X Y \<noteq> []"
  using assms
proof (induction reqs arbitrary: db)
  case Nil
  then show ?case by (simp add: run_def)
next
  case (Cons r rs)
  from Cons.IH[OF step_keeps_records[OF Cons.prems]] show ?case by (simp add: run_def)
qed

lemma length_upsert_existing:
  assumes "records_for db A B \<noteq> []"
  shows "length (upsert_match A B act t1 t2 n (match db)) = length (match db)"
  using like_upsert_cases[of db A B act t1 t2 n] assms
  by (auto simp: upsert_match_def)

lemma records_for_upsert':
  "records_for (db\<lparr>match := upsert_match A B act t1 t2 n c\<rparr>) X Y =
     (if X = A \<and> Y = B
      then (case records_for (db\<lparr>match := c\<rparr>) A B of
              [] \<Rightarrow> [new_record n A B act t1 t2]
            | d # ds \<Rightarrow> apply_set [(''action'', VStr act), (''updated_at'', VDatetime t1)] d # ds)
      else records_for (db\<lparr>match := c\<rparr>) X Y)"
  using records_for_upsert[where db = "db\<lparr>match := c\<rparr>"] by simp

text \<open>
  C3. In the database reached from the empty one by any sequence of writing requests, every
  ordered pair \<open>(X, Y)\<close> has at most one action record. When \<open>(A, B)\<close> has the record
  \<open>r\<close>, a further decision of \<open>A\<close> on \<open>B\<close> leaves one record for the pair, equal to \<open>r\<close>
  except for \<^verbatim>\<open>action\<close> and \<^verbatim>\<open>updated_at\<close> (so \<^verbatim>\<open>created_at\<close> is the original one), and
  the collection keeps its length. Two likes of \<open>B\<close> by \<open>A\<close> in a row leave exactly one
  record for \<open>(A, B)\<close>, with action \<^verbatim>\<open>like\<close>.
\<close>

theorem one_record_per_pair:
  assumes "to_oid L a = Inr A" and "to_oid L b = Inr B" and "A \<noteq> B"
    and "db = run L empty_db reqs"
  shows "length (records_for db X Y) \<le> 1 \<and>
     (\<forall>r. records_for db A B = [r] \<longrightarrow>
        (\<exists>r'. records_for (snd (like_profile L db \<lparr>LikeRequest.user_id = a, target_id = b, action = act\<rparr> t1 t2 n)) A B = [r'] \<and>
              map_of r' = (map_of r)(''action'' \<mapsto> VStr act, ''updated_at'' \<mapsto> VDatetime t1)) \<and>
        length (match (snd (like_profile L db \<lparr>LikeRequest.user_id = a, target_id = b, action = act\<rparr> t1 t2 n)))
          = length (match db)) \<and>
     (\<exists>r. records_for
             (snd (like_profile L
                (snd (like_profile L db \<lparr>LikeRequest.user_id = a, target_id = b, action = ''like''\<rparr> t1 t2 n))
                \<lparr>LikeRequest.user_id = a, target_id = b, action = ''like''\<rparr> t3 t4 n')) A B = [r] \<and>
          map_of r ''action'' = Some (VStr ''like''))"
proof (intro conjI allI impI)
  have uniq: "length (records_for db X Y) \<le> 1" for X Y
    unfolding assms(4) by (rule run_unique) (simp add: records_for_def empty_db_def)
  show "length (records_for db X Y) \<le> 1" by (rule uniq)
  note step = like_profile_upsert[OF assms(1,2,3)]
  {
    fix r assume r: "records_for db A B = [r]"
    show "\<exists>r'. records_for (snd (like_profile L db \<lparr>LikeRequest.user_id = a, target_id = b, action = act\<rparr> t1 t2 n)) A B = [r'] \<and>
              map_of r' = (map_of r)(''action'' \<mapsto> VStr act, ''updated_at'' \<mapsto> VDatetime t1)"
      using r by (simp add: step records_for_upsert map_of_apply_set2)
    show "length (match (snd (like_profile L db \<lparr>LikeRequest.user_id = a, target_id = b, action = act\<rparr> t1 t2 n)))
          = length (match db)"
      using r by (simp add: step length_upsert_existing)
  }
  let ?db1 = "db\<lparr>match := upsert_match A B ''like'' t1 t2 n (match db)\<rparr>"
  have one: "\<exists>r. records_for ?db1 A B = [r]"
    using uniq[of A B] by (cases "records_for db A B") (simp_all add: records_for_upsert)
  then obtain r where r: "records_for ?db1 A B = [r]" ..
  have "records_for (?db1\<lparr>match := upsert_match A B ''like'' t3 t4 n' (match ?db1)\<rparr>) A B =
          [apply_set [(''action'', VStr ''like''), (''updated_at'', VDatetime t3)] r]"
    using r by (simp add: records_for_upsert')
  then show "\<exists>r. records_for
             (snd (like_profile L
                (snd (like_profile L db \<lparr>LikeRequest.user_id = a, target_id = b, action = ''like''\<rparr> t1 t2 n))
                \<lparr>LikeRequest.user_id = a, target_id = b, action = ''like''\<rparr> t3 t4 n')) A B = [r] \<and>
          map_of r ''action'' = Some (VStr ''like'')"
    by (simp add: step map_of_apply_set2)
qed

lemma run_dislike_AB:
  "run sample_lib empty_db dislike_AB =
     \<lparr>profile = [], match = [new_record 100 10 11 ''dislike'' 1 2], message = []\<rparr>"
  by (simp add: run_def dislike_AB_def like_profile_upsert[OF sample_ids(1) sample_ids(2)] empty_db_def
        upsert_match_def update_one_def apply_set_def new_record_def)

theorem one_record_per_pair_witness:
  "to_oid sample_lib id_A = Inr 10 \<and> to_oid sample_lib id_B = Inr 11 \<and> (10::nat) \<noteq> 11 \<and>
   records_for (run sample_lib empty_db dislike_AB) 10 11 = [new_record 100 10 11 ''dislike'' 1 2] \<and>
   length (records_for (run sample_lib empty_db dislike_AB) 10 11) \<le> 1 \<and>
   (\<exists>r'. records_for (snd (like_profile sample_lib (run sample_lib empty_db dislike_AB)
                \<lparr>LikeRequest.user_id = id_A, target_id = id_B, action = ''like''\<rparr> 5 6 101)) 10 11 = [r'] \<and>
         map_of r' = (map_of (new_record 100 10 11 ''dislike'' 1 2))(''action'' \<mapsto> VStr ''like'', ''updated_at'' \<mapsto> VDatetime 5)) \<and>
   length (match (snd (like_profile sample_lib (run sample_lib empty_db dislike_AB)
                \<lparr>LikeRequest.user_id = id_A, target_id = id_B, action = ''like''\<rparr> 5 6 101))) = 1"
proof -
  have ne: "(10::nat) \<noteq> 11" by simp
  have r: "records_for (run sample_lib empty_db dislike_AB) 10 11 = [new_record 100 10 11 ''dislike'' 1 2]"
    by (simp add: run_dislike_AB records_for_def new_record_def)
  have len: "length (match (run sample_lib empty_db dislike_AB)) = 1"
    by (simp add: run_dislike_AB)
  from one_record_per_pair[OF sample_ids(1) sample_ids(2) ne refl,
      where reqs = dislike_AB and X = 10 and Y = 11 and act = "''like''" and ?t1.0 = 5 and ?t2.0 = 6 and n = 101]
  show ?thesis using r len sample_ids(1,2) by simp
qed

text \<open>
  C8. \<^verbatim>\<open>like_profile\<close>, whatever the request and whether it succeeds, leaves the message
  collection as it is, and \<^verbatim>\<open>get_messages\<close> answers after it exactly what it answered
  before: reading a conversation does not depend on the action records.
\<close>

theorem decisions_keep_messages:
  "message (snd (like_profile L db payload t1 t2 n)) = message db \<and>
   get_messages L (snd (like_profile L db payload t1 t2 n)) u p limit = get_messages L db u p limit"
proof -
  have "message (snd (like_profile L db payload t1 t2 n)) = message db"
    using like_profile_cases[of L db payload t1 t2 n] by auto
  then show ?thesis unfolding get_messages_def by (simp only:)
qed

section \<open>Discovery\<close>

lemma serialize_field:
  assumes "serialize L (Some d) = Some p" and "k \<noteq> ''id''" and "k \<noteq> ''_id''"
  shows "map_of p k = map_option (\<lambda>v. case v of VDatetime t \<Rightarrow> VStr (isoformat L t) | _ \<Rightarrow> v) (map_of d k)"
  using assms
  by (auto simp: serialize_def Let_def map_of_map update_conv' delete_conv' split: if_splits)

lemma serialize_oid_field:
  assumes "serialize L (Some d) = Some p" and "k \<noteq> ''id''" and "k \<noteq> ''_id''"
  shows "map_of p k = Some (VOid X) \<longleftrightarrow> map_of d k = Some (VOid X)"
proof -
  have "map_option (\<lambda>v. case v of VDatetime t \<Rightarrow> VStr (isoformat L t) | _ \<Rightarrow> v) z = Some (VOid X)
          \<longleftrightarrow> z = Some (VOid X)" for z
    by (cases z) (auto split: val.splits)
  with serialize_field[OF assms] show ?thesis by simp
qed

lemma serialize_Some: "d \<noteq> [] \<Longrightarrow> \<exists>p. serialize L (Some d) = Some p"
  by (simp add: serialize_def Let_def)

lemma next_loop_result:
  "next_loop L acted cs = Inr r \<Longrightarrow>
     (r = Some no_more \<and> (\<forall>c\<in>set cs. \<exists>u. map_of c ''user_id'' = Some u \<and> u \<in> acted)) \<or>
     (\<exists>pre c post u. cs = pre @ c # post \<and>
        (\<forall>x\<in>set pre. \<exists>u. map_of x ''user_id'' = Some u \<and> u \<in> acted) \<and>
        map_of c ''user_id'' = Some u \<and> u \<notin> acted \<and> r = serialize L (Some c))"
proof (induction cs)
  case Nil
  then show ?case by (simp add: no_more_def)
next
  case (Cons x xs)
  from Cons.prems obtain u where u: "map_of x ''user_id'' = Some u"
    by (auto simp: getitem_def split: option.splits)
  show ?case
  proof (cases "u \<in> acted")
    case False
    with u Cons.prems have "r = serialize L (Some x)" by (simp add: getitem_def)
    with u False show ?thesis
      by (intro disjI2 exI[of _ "[]"] exI[of _ x] exI[of _ xs] exI[of _ u]) simp
  next
    case True
    with u Cons.prems have "next_loop L acted xs = Inr r" by (simp add: getitem_def)
    from Cons.IH[OF this] show ?thesis
    proof (elim disjE exE conjE)
      assume "r = Some no_more" "\<forall>c\<in>set xs. \<exists>u. map_of c ''user_id'' = Some u \<and> u \<in> acted"
      with u True show ?thesis by auto
    next
      fix pre c post v
      assume "xs = pre @ c # post" "\<forall>x\<in>set pre. \<exists>u. map_of x ''user_id'' = Some u \<and> u \<in> acted"
        "map_of c ''user_id'' = Some v" "v \<notin> acted" "r = serialize L (Some c)"
      with u True show ?thesis
        by (intro disjI2 exI[of _ "x # pre"] exI[of _ c] exI[of _ post] exI[of _ v]) auto
    qed
  qed
qed

lemma next_loop_total:
  "\<forall>c\<in>set cs. map_of c ''user_id'' \<noteq> None \<Longrightarrow> \<exists>r. next_loop L acted cs = Inr r"
  by (induction cs) (auto simp: getitem_def)

lemma acted_ids_oid: "VOid X \<in> acted_ids db A \<longleftrightarrow> records_for db A X \<noteq> []"
proof
  assume "VOid X \<in> acted_ids db A"
  then obtain m where "m \<in> set (match db)" "map_of m ''user_id'' = Some (VOid A)" "get m ''target_id'' = VOid X"
    by (auto simp: acted_ids_def coll_find_def)
  then have "m \<in> set (records_for db A X)"
    by (auto simp: records_for_def get_def split: option.splits)
  then show "records_for db A X \<noteq> []" by auto
next
  assume "records_for db A X \<noteq> []"
  then obtain m where "m \<in> set (records_for db A X)" by (cases "records_for db A X") auto
  then have "m \<in> set (coll_find [(''user_id'', Is (VOid A))] (match db))" "get m ''target_id'' = VOid X"
    by (auto simp: records_for_def coll_find_def get_def)
  then show "VOid X \<in> acted_ids db A" unfolding acted_ids_def by force
qed

lemma next_profile_loop:
  "to_oid L a = Inr A \<Longrightarrow>
   next_profile L db a =
     next_loop L (acted_ids db A) (cursor_sort ''updated_at'' (- 1) (coll_find [(''user_id'', Ne (VOid A))] (profile db)))"
  by (simp add: next_profile_def acted_ids_def Let_def)

lemma set_cursor_sort: "set (cursor_sort k dir c) = set c"
  by (simp add: cursor_sort_def)

lemma next_profile_shown:
  assumes "to_oid L a = Inr A" and "next_profile L db a = Inr (Some p)"
  shows "p = no_more \<or>
         (\<exists>c\<in>set (profile db). serialize L (Some c) = Some p \<and> map_of c ''user_id'' \<noteq> Some (VOid A) \<and>
            (\<forall>X. records_for db A X \<noteq> [] \<longrightarrow> map_of c ''user_id'' \<noteq> Some (VOid X)))"
proof -
  let ?cs = "cursor_sort ''updated_at'' (- 1) (coll_find [(''user_id'', Ne (VOid A))] (profile db))"
  from assms have "next_loop L (acted_ids db A) ?cs = Inr (Some p)"
    by (simp add: next_profile_loop)
  from next_loop_result[OF this] show ?thesis
  proof (elim disjE exE conjE)
    assume "Some p = Some no_more" then show ?thesis by simp
  next
    fix pre c post u
    assume *: "?cs = pre @ c # post" "map_of c ''user_id'' = Some u" "u \<notin> acted_ids db A"
      "Some p = serialize L (Some c)"
    from *(1) have "c \<in> set ?cs" by simp
    then have c: "c \<in> set (profile db)" "map_of c ''user_id'' \<noteq> Some (VOid A)"
      by (auto simp: set_cursor_sort coll_find_def)
    have "map_of c ''user_id'' \<noteq> Some (VOid X)" if "records_for db A X \<noteq> []" for X
      using that *(2,3) acted_ids_oid[of X db A] by auto
    with c *(4) show ?thesis by auto
  qed
qed

lemma run_two_profiles:
  "run sample_lib empty_db two_profiles = \<lparr>profile = [profile_B, profile_C], match = [], message = []\<rparr>"
  by (simp add: run_def two_profiles_def create_or_complete_profile_def sample_ids empty_db_def
        update_one_def apply_set_def Let_def opt_val_def str_list_def profile_B_def profile_C_def)

lemma sample_digits:
  "digits 16 24 101 = ''000000000000000000000065''"
  "digits 10 20 3 = ''00000000000000000003''"
  "digits 10 20 4 = ''00000000000000000004''"
  by code_simp+

lemma serialize_profile_C: "serialize sample_lib (Some profile_C) = Some shown_C"
  by (simp add: serialize_def profile_C_def shown_C_def get_def sample_lib_def sample_digits Let_def)

lemma run_simps:
  "run L db [] = db"
  "run L db (r # rs) = run L (step L db r) rs"
  by (simp_all add: run_def)

lemma run_after_dislike:
  "run sample_lib
       (snd (like_profile sample_lib (run sample_lib empty_db two_profiles)
               \<lparr>LikeRequest.user_id = id_A, target_id = id_B, action = ''dislike''\<rparr> 5 6 102))
       rename_B = after_dislike"
  by (simp add: run_two_profiles like_profile_upsert[OF sample_ids(1) sample_ids(2)]
        upsert_match_def update_one_def apply_set_def new_record_def after_dislike_def
        run_simps rename_B_def update_profile_def sample_ids model_dump_def opt_val_def Let_def profile_B_def profile_C_def)

lemma next_after_dislike: "next_profile sample_lib after_dislike id_A = Inr (Some shown_C)"
  by (simp add: next_profile_loop[OF sample_ids(1)] acted_ids_def coll_find_def after_dislike_def
        new_record_def cursor_sort_def sort_field_def profile_B_def get_def getitem_def
        serialize_profile_C[unfolded profile_C_def] profile_C_def less_eq_option_def)

lemma no_more_user_id: "map_of no_more ''user_id'' = None"
  by (simp add: no_more_def)

lemma like_profile_records:
  assumes "to_oid L a = Inr A" and "to_oid L b = Inr B" and "A \<noteq> B"
  shows "records_for (snd (like_profile L db \<lparr>LikeRequest.user_id = a, target_id = b, action = act\<rparr> t1 t2 n)) A B \<noteq> []"
  by (simp add: like_profile_upsert[OF assms] records_for_upsert split: list.splits)

text \<open>
  C4. Whatever \<^verbatim>\<open>next_profile\<close> shows to \<open>A\<close>, it is not a profile of \<open>A\<close> and not a profile
  of a user \<open>X\<close> for whom the ledger holds an action record of \<open>A\<close>, like or dislike. In
  particular, in a database reached by any sequence of writing requests (profile updates
  among them) after a decision of \<open>A\<close> on \<open>B\<close> was recorded, the profile shown is not
  \<open>B\<close>'s.
\<close>

theorem decided_never_shown:
  assumes "to_oid L a = Inr A" and "next_profile L db' a = Inr (Some p)"
  shows "map_of p ''user_id'' \<noteq> Some (VOid A) \<and>
         list_all (\<lambda>d. serialize L (Some d) \<noteq> Some p) (profiles_of db' A) \<and>
         (\<forall>X. records_for db' A X \<noteq> [] \<longrightarrow>
                map_of p ''user_id'' \<noteq> Some (VOid X) \<and>
                list_all (\<lambda>d. serialize L (Some d) \<noteq> Some p) (profiles_of db' X)) \<and>
         (to_oid L b = Inr B \<and> A \<noteq> B \<and>
          db' = run L (snd (like_profile L db \<lparr>LikeRequest.user_id = a, target_id = b, action = act\<rparr> t1 t2 n)) reqs
            \<longrightarrow> map_of p ''user_id'' \<noteq> Some (VOid B))"
proof -
  have own: "map_of p ''user_id'' \<noteq> Some (VOid A)"
    and decided: "records_for db' A X \<noteq> [] \<Longrightarrow> map_of p ''user_id'' \<noteq> Some (VOid X)" for X
    using next_profile_shown[OF assms]
    by (auto simp: no_more_user_id serialize_oid_field)
  have ser: "list_all (\<lambda>d. serialize L (Some d) \<noteq> Some p) (profiles_of db' X)"
    if "map_of p ''user_id'' \<noteq> Some (VOid X)" for X
    using that by (auto simp: list_all_iff profiles_of_def serialize_oid_field)
  have scenario: "map_of p ''user_id'' \<noteq> Some (VOid B)"
    if "to_oid L b = Inr B" "A \<noteq> B"
      "db' = run L (snd (like_profile L db \<lparr>LikeRequest.user_id = a, target_id = b, action = act\<rparr> t1 t2 n)) reqs"
  proof -
    have "records_for db' A B \<noteq> []"
      unfolding that(3) by (rule run_keeps_records) (rule like_profile_records[OF assms(1) that(1,2)])
    then show ?thesis by (rule decided)
  qed
  from own decided ser scenario show ?thesis by blast
qed

theorem decided_never_shown_witness:
  "to_oid sample_lib id_A = Inr 10 \<and> next_profile sample_lib after_dislike id_A = Inr (Some shown_C) \<and>
   records_for after_dislike 10 11 \<noteq> [] \<and>
   to_oid sample_lib id_B = Inr 11 \<and> (10::nat) \<noteq> 11 \<and>
   after_dislike =
     run sample_lib
       (snd (like_profile sample_lib (run sample_lib empty_db two_profiles)
               \<lparr>LikeRequest.user_id = id_A, target_id = id_B, action = ''dislike''\<rparr> 5 6 102))
       rename_B \<and>
   map_of shown_C ''user_id'' \<noteq> Some (VOid 10) \<and>
   map_of shown_C ''user_id'' \<noteq> Some (VOid 11) \<and>
   list_all (\<lambda>d. serialize sample_lib (Some d) \<noteq> Some shown_C) (profiles_of after_dislike 11)"
proof -
  have rec: "records_for after_dislike 10 11 \<noteq> []"
    by (simp add: after_dislike_def records_for_def new_record_def)
  have ne: "(10::nat) \<noteq> 11" by simp
  from decided_never_shown[OF sample_ids(1) next_after_dislike,
      where b = id_B and B = 11 and db = "run sample_lib empty_db two_profiles" and act = "''dislike''"
        and ?t1.0 = 5 and ?t2.0 = 6 and n = 102 and reqs = rename_B]
  show ?thesis
    using rec ne sample_ids(1,2) next_after_dislike run_after_dislike by simp
qed

lemma cursor_sort_desc:
  "sorted_wrt (\<lambda>x y. sort_field k y \<le> sort_field k x) (cursor_sort k (- 1) c)"
proof -
  have "sorted (map (sort_field k) (sort_key (sort_field k) (rev c)))" by (rule sorted_sort_key)
  then have "sorted_wrt (\<lambda>x y. sort_field k x \<le> sort_field k y) (sort_key (sort_field k) (rev c))"
    by (simp add: sorted_map)
  then show ?thesis by (simp add: cursor_sort_def sorted_wrt_rev)
qed

lemma is_oid_iff: "is_oid d k \<longleftrightarrow> (\<exists>X. map_of d k = Some (VOid X))"
  by (auto simp: is_oid_def split: option.splits val.splits)

lemma eligible_iff:
  "eligible db A c \<longleftrightarrow>
     (\<exists>X. map_of c ''user_id'' = Some (VOid X) \<and> X \<noteq> A \<and> VOid X \<notin> acted_ids db A)"
  by (auto simp: eligible_def acted_ids_oid split: option.splits val.splits)

lemma next_profile_greatest:
  assumes "to_oid L a = Inr A" and "well_formed db"
  shows "(\<not> list_ex (eligible db A) (profile db) \<and> next_profile L db a = Inr (Some no_more)) \<or>
         (\<exists>cand\<in>set (profile db). eligible db A cand \<and>
             next_profile L db a = Inr (serialize L (Some cand)) \<and>
             (\<forall>c\<in>set (profile db). eligible db A c \<longrightarrow>
                 sort_field ''updated_at'' c \<le> sort_field ''updated_at'' cand))"
proof -
  define cs where "cs = cursor_sort ''updated_at'' (- 1) (coll_find [(''user_id'', Ne (VOid A))] (profile db))"
  define acted where "acted = acted_ids db A"
  define f where "f = sort_field ''updated_at''"
  have cs: "c \<in> set cs \<longleftrightarrow> c \<in> set (profile db) \<and> map_of c ''user_id'' \<noteq> Some (VOid A)" for c
    by (simp add: cs_def set_cursor_sort coll_find_def)
  have oid: "\<exists>X. map_of c ''user_id'' = Some (VOid X)" if "c \<in> set (profile db)" for c
  proof -
    from assms(2) that have "is_oid c ''user_id''"
      by (simp add: well_formed_def list_all_iff)
    then show ?thesis by (simp add: is_oid_iff)
  qed
  have el: "eligible db A c \<longleftrightarrow> (\<exists>X. map_of c ''user_id'' = Some (VOid X) \<and> X \<noteq> A \<and> VOid X \<notin> acted)" for c
    unfolding acted_def by (rule eligible_iff)
  have in_cs: "c \<in> set cs" if "c \<in> set (profile db)" "eligible db A c" for c
  proof -
    from that(2) obtain X where "map_of c ''user_id'' = Some (VOid X)" "X \<noteq> A" unfolding el by blast
    with that(1) show ?thesis unfolding cs by simp
  qed
  have "\<forall>c\<in>set cs. map_of c ''user_id'' \<noteq> None"
  proof
    fix c assume "c \<in> set cs"
    then have "c \<in> set (profile db)" unfolding cs by simp
    from oid[OF this] show "map_of c ''user_id'' \<noteq> None" by auto
  qed
  from next_loop_total[OF this] obtain r where r: "next_loop L acted cs = Inr r" by blast
  have np: "next_profile L db a = Inr r"
    using r by (simp add: next_profile_loop[OF assms(1)] cs_def acted_def)
  from next_loop_result[OF r] show ?thesis
  proof (elim disjE exE conjE)
    assume none: "r = Some no_more" "\<forall>c\<in>set cs. \<exists>u. map_of c ''user_id'' = Some u \<and> u \<in> acted"
    have "\<not> eligible db A c" if "c \<in> set (profile db)" for c
    proof
      assume e: "eligible db A c"
      then obtain X where X: "map_of c ''user_id'' = Some (VOid X)" "VOid X \<notin> acted" unfolding el by blast
      from in_cs[OF that e] none(2) obtain u where "map_of c ''user_id'' = Some u" "u \<in> acted" by blast
      with X show False by simp
    qed
    then have "\<not> list_ex (eligible db A) (profile db)" unfolding list_ex_iff by blast
    with none(1) np show ?thesis by simp
  next
    fix pre c post u
    assume *: "cs = pre @ c # post"
      "\<forall>x\<in>set pre. \<exists>u. map_of x ''user_id'' = Some u \<and> u \<in> acted"
      "map_of c ''user_id'' = Some u" "u \<notin> acted" "r = serialize L (Some c)"
    from *(1) have "c \<in> set cs" by simp
    then have c_prof: "c \<in> set (profile db)" "map_of c ''user_id'' \<noteq> Some (VOid A)"
      unfolding cs by simp_all
    from oid[OF c_prof(1)] obtain X where X: "map_of c ''user_id'' = Some (VOid X)" by blast
    with *(3,4) c_prof(2) have "X \<noteq> A" "VOid X \<notin> acted" by auto
    with X have c_el: "eligible db A c" unfolding el by blast
    have "sorted_wrt (\<lambda>x y. f y \<le> f x) cs"
      unfolding cs_def f_def by (rule cursor_sort_desc)
    then have post: "\<forall>y\<in>set post. f y \<le> f c"
      unfolding *(1) by (simp add: sorted_wrt_append)
    have "f c' \<le> f c" if "c' \<in> set (profile db)" "eligible db A c'" for c'
    proof -
      from in_cs[OF that] have "c' \<in> set pre \<or> c' = c \<or> c' \<in> set post" unfolding *(1) by auto
      moreover have "c' \<notin> set pre"
      proof
        assume "c' \<in> set pre"
        with *(2) obtain v where v: "map_of c' ''user_id'' = Some v" "v \<in> acted" by blast
        from that(2) obtain Y where "map_of c' ''user_id'' = Some (VOid Y)" "VOid Y \<notin> acted"
          unfolding el by blast
        with v show False by simp
      qed
      ultimately show ?thesis using post by auto
    qed
    then have "\<forall>c'\<in>set (profile db). eligible db A c' \<longrightarrow>
        sort_field ''updated_at'' c' \<le> sort_field ''updated_at'' c"
      unfolding f_def by blast
    with c_prof(1) c_el np *(5) show ?thesis by blast
  qed
qed

text \<open>
  C5. In a well-formed database, \<^verbatim>\<open>next_profile\<close> answers without an exception: when no
  profile is eligible for \<open>A\<close> (not \<open>A\<close>'s own, its user not decided upon by \<open>A\<close>) it answers
  \<^verbatim>\<open>No more profiles\<close>; otherwise it shows an eligible profile whose \<^verbatim>\<open>updated_at\<close> is
  greatest among the eligible ones. So while an eligible profile \<open>c2\<close> is more recent than
  the profile \<open>c1\<close> of user \<open>B1\<close>, the profile shown is not \<open>B1\<close>'s.
\<close>

theorem most_recent_first:
  assumes "to_oid L a = Inr A" and "well_formed db"
  shows "((\<not> list_ex (eligible db A) (profile db) \<and> next_profile L db a = Inr (Some no_more)) \<or>
          (\<exists>cand\<in>set (profile db). eligible db A cand \<and>
             next_profile L db a = Inr (serialize L (Some cand)) \<and>
             (\<forall>c\<in>set (profile db). eligible db A c \<longrightarrow>
                 sort_field ''updated_at'' c \<le> sort_field ''updated_at'' cand))) \<and>
         (profiles_of db B1 = [c1] \<and> c2 \<in> set (profile db) \<and> eligible db A c2 \<and>
          map_of c1 ''updated_at'' = Some (VDatetime t1) \<and>
          map_of c2 ''updated_at'' = Some (VDatetime t2) \<and> t1 < t2
          \<longrightarrow> (\<exists>p. next_profile L db a = Inr (Some p) \<and> map_of p ''user_id'' \<noteq> Some (VOid B1)))"
proof (intro conjI impI)
  note main = next_profile_greatest[OF assms]
  show "(\<not> list_ex (eligible db A) (profile db) \<and> next_profile L db a = Inr (Some no_more)) \<or>
          (\<exists>cand\<in>set (profile db). eligible db A cand \<and>
             next_profile L db a = Inr (serialize L (Some cand)) \<and>
             (\<forall>c\<in>set (profile db). eligible db A c \<longrightarrow>
                 sort_field ''updated_at'' c \<le> sort_field ''updated_at'' cand))"
    by (rule main)
  assume h: "profiles_of db B1 = [c1] \<and> c2 \<in> set (profile db) \<and> eligible db A c2 \<and>
          map_of c1 ''updated_at'' = Some (VDatetime t1) \<and>
          map_of c2 ''updated_at'' = Some (VDatetime t2) \<and> t1 < t2"
  then have ex: "list_ex (eligible db A) (profile db)" unfolding list_ex_iff by blast
  with main obtain cand where cand: "cand \<in> set (profile db)" "eligible db A cand"
      "next_profile L db a = Inr (serialize L (Some cand))"
      "\<forall>c\<in>set (profile db). eligible db A c \<longrightarrow> sort_field ''updated_at'' c \<le> sort_field ''updated_at'' cand"
    by blast
  from cand(2) have "cand \<noteq> []" by (auto simp: eligible_def)
  from serialize_Some[OF this] obtain p where p: "serialize L (Some cand) = Some p" by blast
  have "map_of p ''user_id'' \<noteq> Some (VOid B1)"
  proof
    assume "map_of p ''user_id'' = Some (VOid B1)"
    then have "map_of cand ''user_id'' = Some (VOid B1)"
      using serialize_oid_field[OF p, of "''user_id''" B1] by simp
    with cand(1) have "cand \<in> set (profiles_of db B1)" by (simp add: profiles_of_def)
    with h have "cand = c1" by simp
    moreover from cand(4) h have "sort_field ''updated_at'' c2 \<le> sort_field ''updated_at'' cand" by blast
    moreover from h have "sort_field ''updated_at'' c1 = Some t1" "sort_field ''updated_at'' c2 = Some t2"
      by (simp_all add: sort_field_def)
    ultimately have "Some t2 \<le> Some t1" by simp
    with h show False by simp
  qed
  with cand(3) p show "\<exists>p. next_profile L db a = Inr (Some p) \<and> map_of p ''user_id'' \<noteq> Some (VOid B1)"
    by simp
qed

lemma both_profiles_facts:
  "well_formed both_profiles"
  "profiles_of both_profiles 11 = [profile_B]"
  "profile_C \<in> set (profile both_profiles)"
  "eligible both_profiles 10 profile_C"
  "map_of profile_B ''updated_at'' = Some (VDatetime 1)"
  "map_of profile_C ''updated_at'' = Some (VDatetime 3)"
  by (simp_all add: both_profiles_def well_formed_def is_oid_def is_datetime_def profile_B_def profile_C_def
        profiles_of_def eligible_def records_for_def)

theorem most_recent_first_witness:
  "to_oid sample_lib id_A = Inr 10 \<and> well_formed both_profiles \<and>
   list_ex (eligible both_profiles 10) (profile both_profiles) \<and>
   profiles_of both_profiles 11 = [profile_B] \<and> profile_C \<in> set (profile both_profiles) \<and>
   eligible both_profiles 10 profile_C \<and>
   map_of profile_B ''updated_at'' = Some (VDatetime 1) \<and>
   map_of profile_C ''updated_at'' = Some (VDatetime 3) \<and> (1::int) < 3 \<and>
   (\<exists>cand. cand \<in> set (profile both_profiles) \<and> eligible both_profiles 10 cand \<and>
       next_profile sample_lib both_profiles id_A = Inr (serialize sample_lib (Some cand))) \<and>
   (\<exists>p. next_profile sample_lib both_profiles id_A = Inr (Some p) \<and> map_of p ''user_id'' \<noteq> Some (VOid 11))"
proof -
  have ex: "list_ex (eligible both_profiles 10) (profile both_profiles)"
    using both_profiles_facts(3,4) unfolding list_ex_iff by blast
  have lt: "(1::int) < 3" by simp
  from most_recent_first[OF sample_ids(1) both_profiles_facts(1),
      where ?B1.0 = 11 and ?c1.0 = profile_B and ?c2.0 = profile_C and ?t1.0 = 1 and ?t2.0 = 3]
  show ?thesis using ex lt both_profiles_facts sample_ids(1) by blast
qed

section \<open>Chat peers\<close>

lemma chats_loop_result:
  "chats_loop L db A peers my_likes = Inr out \<Longrightarrow> out = peers @ concat (map (peer_of L db A) my_likes)"
proof (induction my_likes arbitrary: peers)
  case Nil
  then show ?case by simp
next
  case (Cons like ls)
  from Cons.prems obtain t where t: "map_of like ''target_id'' = Some t"
    by (auto simp: getitem_def split: option.splits)
  from Cons.prems t have "chats_loop L db A (peers @ peer_of L db A like) ls = Inr out"
    by (auto simp: getitem_def peer_of_def Let_def split: if_splits)
  from Cons.IH[OF this] show ?case by simp
qed

lemma chats_loop_total:
  "\<forall>like\<in>set my_likes. map_of like ''target_id'' \<noteq> None \<Longrightarrow> \<exists>out. chats_loop L db A peers my_likes = Inr out"
proof (induction my_likes arbitrary: peers)
  case Nil
  then show ?case by simp
next
  case (Cons like ls)
  then obtain t where t: "map_of like ''target_id'' = Some t" by auto
  from Cons.prems have "\<forall>like\<in>set ls. map_of like ''target_id'' \<noteq> None" by simp
  from Cons.IH[OF this] t show ?case by (simp add: getitem_def Let_def)
qed

lemma find_one_Some: "find_one q c = Some d \<Longrightarrow> d \<in> set c \<and> matches q d"
  by (auto simp: find_one_def find_Some_iff)

lemma truthy_find_one_single:
  "truthy_doc (find_one [(k, Is v)] c) \<longleftrightarrow> (\<exists>d\<in>set c. map_of d k = Some v)"
proof (cases "find_one [(k, Is v)] c")
  case None
  then have "\<forall>d\<in>set c. \<not> matches [(k, Is v)] d" by (simp add: find_one_None)
  with None show ?thesis by simp
next
  case (Some d)
  from find_one_Some[OF Some] have "d \<in> set c" "map_of d k = Some v" by simp_all
  moreover then have "d \<noteq> []" by auto
  ultimately show ?thesis using Some by auto
qed

lemma truthy_find_one_triple:
  "truthy_doc (find_one [(k1, Is v1), (k2, Is v2), (k3, Is v3)] c) \<longleftrightarrow>
     (\<exists>d\<in>set c. map_of d k1 = Some v1 \<and> map_of d k2 = Some v2 \<and> map_of d k3 = Some v3)"
proof (cases "find_one [(k1, Is v1), (k2, Is v2), (k3, Is v3)] c")
  case None
  then have "\<forall>d\<in>set c. \<not> matches [(k1, Is v1), (k2, Is v2), (k3, Is v3)] d" by (simp add: find_one_None)
  with None show ?thesis by auto
next
  case (Some d)
  from find_one_Some[OF Some] have "d \<in> set c" "map_of d k1 = Some v1 \<and> map_of d k2 = Some v2 \<and> map_of d k3 = Some v3"
    by simp_all
  moreover then have "d \<noteq> []" by auto
  ultimately show ?thesis using Some by auto
qed

lemma likes_iff:
  "likes db A B \<longleftrightarrow>
     (\<exists>d\<in>set (match db). map_of d ''user_id'' = Some (VOid A) \<and> map_of d ''target_id'' = Some (VOid B) \<and>
        map_of d ''action'' = Some (VStr ''like''))"
  by (auto simp: likes_def records_for_def list_ex_iff)

lemma profiles_of_nonempty:
  "profiles_of db B \<noteq> [] \<longleftrightarrow> (\<exists>d\<in>set (profile db). map_of d ''user_id'' = Some (VOid B))"
  by (auto simp: profiles_of_def filter_empty_conv)

lemma appears_peer_of:
  assumes "map_of like ''target_id'' = Some (VOid X)"
  shows "appears (peer_of L db A like) B \<longleftrightarrow> X = B \<and> likes db B A \<and> profiles_of db B \<noteq> []"
proof (cases "find_one [(''user_id'', Is (VOid X))] (profile db)")
  case None
  then have "\<not> truthy_doc (find_one [(''user_id'', Is (VOid X))] (profile db))" by simp
  moreover from this have "profiles_of db X = []"
    unfolding truthy_find_one_single using profiles_of_nonempty[of db X] by blast
  ultimately show ?thesis using assms by (auto simp: peer_of_def appears_def)
next
  case (Some prof)
  from find_one_Some[OF Some] have prof: "prof \<in> set (profile db)" "map_of prof ''user_id'' = Some (VOid X)"
    by simp_all
  then have ne: "prof \<noteq> []" by auto
  from serialize_Some[OF ne] obtain p where p: "serialize L (Some prof) = Some p" by blast
  have pu: "map_of p ''user_id'' = Some (VOid B) \<longleftrightarrow> X = B"
    using serialize_oid_field[OF p, of "''user_id''" B] prof(2) by simp
  have pX: "profiles_of db X \<noteq> []" using prof unfolding profiles_of_nonempty by blast
  show ?thesis
  proof (cases "likes db X A")
    case True
    then have "truthy_doc (find_one [(''user_id'', Is (VOid X)), (''target_id'', Is (VOid A)),
                                   (''action'', Is (VStr ''like''))] (match db))"
      unfolding truthy_find_one_triple likes_iff .
    with assms Some ne p have "peer_of L db A like = [Some p]" by (simp add: peer_of_def)
    with pu True pX show ?thesis by (auto simp: appears_def)
  next
    case False
    then have "\<not> truthy_doc (find_one [(''user_id'', Is (VOid X)), (''target_id'', Is (VOid A)),
                                   (''action'', Is (VStr ''like''))] (match db))"
      unfolding truthy_find_one_triple likes_iff .
    with assms have "peer_of L db A like = []" by (simp add: peer_of_def)
    with False show ?thesis by (auto simp: appears_def)
  qed
qed

lemma appears_concat: "appears (concat xss) B \<longleftrightarrow> (\<exists>xs\<in>set xss. appears xs B)"
  by (auto simp: appears_def list_ex_iff)

lemma list_chats_peers:
  assumes "to_oid L a = Inr A" and "well_formed db"
  shows "\<exists>peers. list_chats L db a = Inr peers \<and>
           (\<forall>B. appears peers B \<longleftrightarrow> likes db A B \<and> likes db B A \<and> profiles_of db B \<noteq> []) \<and>
           (list_all (\<lambda>p. \<exists>B. appears [p] B) peers)"
proof -
  define my_likes where
    "my_likes = coll_find [(''user_id'', Is (VOid A)), (''action'', Is (VStr ''like''))] (match db)"
  have ml: "l \<in> set my_likes \<longleftrightarrow> l \<in> set (match db) \<and> map_of l ''user_id'' = Some (VOid A) \<and>
              map_of l ''action'' = Some (VStr ''like'')" for l
    by (auto simp: my_likes_def coll_find_def)
  have tgt: "\<exists>X. map_of l ''target_id'' = Some (VOid X)" if "l \<in> set my_likes" for l
  proof -
    from that have "l \<in> set (match db)" unfolding ml by simp
    with assms(2) have "is_oid l ''target_id''" by (simp add: well_formed_def list_all_iff)
    then show ?thesis by (simp add: is_oid_iff)
  qed
  have "\<forall>l\<in>set my_likes. map_of l ''target_id'' \<noteq> None"
  proof
    fix l assume "l \<in> set my_likes"
    from tgt[OF this] show "map_of l ''target_id'' \<noteq> None" by auto
  qed
  from chats_loop_total[OF this] obtain out where out: "chats_loop L db A [] my_likes = Inr out" by blast
  from chats_loop_result[OF out] have out_eq: "out = concat (map (peer_of L db A) my_likes)" by simp
  have lc: "list_chats L db a = Inr out"
    using out assms(1) by (simp add: list_chats_def my_likes_def)
  have iff: "appears out B \<longleftrightarrow> likes db A B \<and> likes db B A \<and> profiles_of db B \<noteq> []" for B
  proof
    assume "appears out B"
    then obtain l where l: "l \<in> set my_likes" "appears (peer_of L db A l) B"
      unfolding out_eq appears_concat by auto
    from tgt[OF l(1)] obtain X where X: "map_of l ''target_id'' = Some (VOid X)" by blast
    from l(2) have "X = B" "likes db B A" "profiles_of db B \<noteq> []"
      unfolding appears_peer_of[OF X] by simp_all
    moreover from l(1) X \<open>X = B\<close> have "likes db A B" unfolding ml likes_iff by blast
    ultimately show "likes db A B \<and> likes db B A \<and> profiles_of db B \<noteq> []" by simp
  next
    assume h: "likes db A B \<and> likes db B A \<and> profiles_of db B \<noteq> []"
    then obtain l where l: "l \<in> set my_likes" "map_of l ''target_id'' = Some (VOid B)"
      unfolding ml likes_iff by blast
    from h have "appears (peer_of L db A l) B" unfolding appears_peer_of[OF l(2)] by simp
    with l(1) show "appears out B" unfolding out_eq appears_concat by auto
  qed
  have all: "list_all (\<lambda>p. \<exists>B. appears [p] B) out"
    unfolding list_all_iff
  proof
    fix p assume "p \<in> set out"
    then obtain l where l: "l \<in> set my_likes" "p \<in> set (peer_of L db A l)"
      unfolding out_eq by auto
    from tgt[OF l(1)] obtain X where X: "map_of l ''target_id'' = Some (VOid X)" by blast
    from l(2) have eq: "peer_of L db A l = [p]"
      by (auto simp: peer_of_def X split: if_splits)
    then have "peer_of L db A l \<noteq> []" by simp
    have "appears (peer_of L db A l) X"
    proof (rule ccontr)
      assume "\<not> appears (peer_of L db A l) X"
      then have "\<not> (likes db X A \<and> profiles_of db X \<noteq> [])" unfolding appears_peer_of[OF X] by simp
      then have "peer_of L db A l = []"
        unfolding likes_iff profiles_of_nonempty
        by (auto simp: peer_of_def X truthy_find_one_single truthy_find_one_triple)
      with eq show False by simp
    qed
    with eq show "\<exists>B. appears [p] B" by auto
  qed
  from lc iff all show ?thesis by blast
qed

lemma well_formed_upsert:
  assumes "well_formed db"
  shows "well_formed (db\<lparr>match := upsert_match A B act t1 t2 n (match db)\<rparr>)"
  using like_upsert_cases[of db A B act t1 t2 n]
proof (elim disjE conjE exE)
  assume "fst (update_one [(''user_id'', Is (VOid A)), (''target_id'', Is (VOid B))]
          [(''action'', VStr act), (''updated_at'', VDatetime t1)] [(''created_at'', VDatetime t2)] True n (match db)) =
         match db @ [new_record n A B act t1 t2]"
  with assms show ?thesis
    by (simp add: upsert_match_def well_formed_def is_oid_def new_record_def)
next
  fix pre d post
  assume "match db = pre @ d # post"
    "fst (update_one [(''user_id'', Is (VOid A)), (''target_id'', Is (VOid B))]
          [(''action'', VStr act), (''updated_at'', VDatetime t1)] [(''created_at'', VDatetime t2)] True n (match db)) =
         pre @ apply_set [(''action'', VStr act), (''updated_at'', VDatetime t1)] d # post"
  with assms show ?thesis
    by (simp add: upsert_match_def well_formed_def is_oid_def map_of_apply_set2)
qed

lemma profiles_of_upsert:
  "profiles_of (db\<lparr>match := c\<rparr>) X = profiles_of db X"
  by (simp add: profiles_of_def)

text \<open>
  C6. In a well-formed database, \<open>B\<close> appears in the answer of \<^verbatim>\<open>list_chats\<close> for \<open>A\<close> exactly
  when \<open>A\<close> likes \<open>B\<close>, \<open>B\<close> likes \<open>A\<close> and a profile document of \<open>B\<close> exists. So a one-sided
  like shows nobody; and once \<open>B\<close> likes back an \<open>A\<close> who likes \<open>B\<close>, both having a profile,
  \<open>B\<close> appears for \<open>A\<close> and \<open>A\<close> appears for \<open>B\<close>.
\<close>

theorem chat_peers_mutual_with_profile:
  assumes "to_oid L a = Inr A" and "well_formed db"
  shows "(\<exists>peers. list_chats L db a = Inr peers \<and>
            (appears peers B \<longleftrightarrow> likes db A B \<and> likes db B A \<and> profiles_of db B \<noteq> [])) \<and>
         (to_oid L b = Inr B \<and> A \<noteq> B \<and> likes db A B \<and> profiles_of db A \<noteq> [] \<and> profiles_of db B \<noteq> [] \<longrightarrow>
            (\<exists>pa pb.
               list_chats L (snd (like_profile L db \<lparr>LikeRequest.user_id = b, target_id = a, action = ''like''\<rparr> t1 t2 n)) a
                 = Inr pa \<and> appears pa B \<and>
               list_chats L (snd (like_profile L db \<lparr>LikeRequest.user_id = b, target_id = a, action = ''like''\<rparr> t1 t2 n)) b
                 = Inr pb \<and> appears pb A))"
proof (intro conjI impI)
  from list_chats_peers[OF assms]
  show "\<exists>peers. list_chats L db a = Inr peers \<and>
            (appears peers B \<longleftrightarrow> likes db A B \<and> likes db B A \<and> profiles_of db B \<noteq> [])"
    by blast
next
  assume h: "to_oid L b = Inr B \<and> A \<noteq> B \<and> likes db A B \<and> profiles_of db A \<noteq> [] \<and> profiles_of db B \<noteq> []"
  define db1 where "db1 = db\<lparr>match := upsert_match B A ''like'' t1 t2 n (match db)\<rparr>"
  from h assms(1) have step:
    "snd (like_profile L db \<lparr>LikeRequest.user_id = b, target_id = a, action = ''like''\<rparr> t1 t2 n) = db1"
    by (simp add: like_profile_upsert db1_def)
  have wf: "well_formed db1" unfolding db1_def by (rule well_formed_upsert[OF assms(2)])
  have ba: "likes db1 B A"
    unfolding db1_def by (simp add: likes_upsert split: list.splits)
  have ab: "likes db1 A B"
    using h unfolding db1_def by (simp add: likes_upsert)
  have pr: "profiles_of db1 A \<noteq> []" "profiles_of db1 B \<noteq> []"
    using h unfolding db1_def by (simp_all add: profiles_of_upsert)
  from list_chats_peers[OF assms(1) wf] ab ba pr(2) obtain pa where
    "list_chats L db1 a = Inr pa" "appears pa B" by blast
  moreover from h have "to_oid L b = Inr B" by simp
  from list_chats_peers[OF this wf] ab ba pr(1) obtain pb where
    "list_chats L db1 b = Inr pb" "appears pb A" by blast
  ultimately show "\<exists>pa pb.
               list_chats L (snd (like_profile L db \<lparr>LikeRequest.user_id = b, target_id = a, action = ''like''\<rparr> t1 t2 n)) a
                 = Inr pa \<and> appears pa B \<and>
               list_chats L (snd (like_profile L db \<lparr>LikeRequest.user_id = b, target_id = a, action = ''like''\<rparr> t1 t2 n)) b
                 = Inr pb \<and> appears pb A"
    unfolding step by blast
qed

lemma one_sided_facts:
  "well_formed one_sided"
  "likes one_sided 10 11"
  "\<not> likes one_sided 11 10"
  "profiles_of one_sided 10 \<noteq> []"
  "profiles_of one_sided 11 \<noteq> []"
  by (simp_all add: one_sided_def well_formed_def is_oid_def is_datetime_def profile_A_def profile_B_def
        new_record_def likes_def records_for_def profiles_of_def)

theorem chat_peers_mutual_with_profile_witness:
  "to_oid sample_lib id_A = Inr 10 \<and> well_formed one_sided \<and>
   to_oid sample_lib id_B = Inr 11 \<and> (10::nat) \<noteq> 11 \<and> likes one_sided 10 11 \<and> \<not> likes one_sided 11 10 \<and>
   profiles_of one_sided 10 \<noteq> [] \<and> profiles_of one_sided 11 \<noteq> [] \<and>
   (\<exists>peers. list_chats sample_lib one_sided id_A = Inr peers \<and> \<not> appears peers 11) \<and>
   (\<exists>pa pb.
      list_chats sample_lib
        (snd (like_profile sample_lib one_sided \<lparr>LikeRequest.user_id = id_B, target_id = id_A, action = ''like''\<rparr> 7 8 103))
        id_A = Inr pa \<and> appears pa 11 \<and>
      list_chats sample_lib
        (snd (like_profile sample_lib one_sided \<lparr>LikeRequest.user_id = id_B, target_id = id_A, action = ''like''\<rparr> 7 8 103))
        id_B = Inr pb \<and> appears pb 10)"
proof -
  have ne: "(10::nat) \<noteq> 11" by simp
  from chat_peers_mutual_with_profile[OF sample_ids(1) one_sided_facts(1),
      where B = 11 and b = id_B and ?t1.0 = 7 and ?t2.0 = 8 and n = 103]
  show ?thesis using ne one_sided_facts sample_ids(1,2) by blast
qed

lemma run_mutual_likes: "run sample_lib empty_db mutual_likes = mutual_no_profile"
  by (simp add: mutual_likes_def run_simps like_profile_upsert sample_ids empty_db_def
        upsert_match_def update_one_def apply_set_def new_record_def mutual_no_profile_def)

lemma mutual_no_profile_facts:
  "well_formed mutual_no_profile"
  "likes mutual_no_profile 10 11"
  "likes mutual_no_profile 11 10"
  "profiles_of mutual_no_profile X = []"
  by (simp_all add: mutual_no_profile_def well_formed_def is_oid_def
        new_record_def likes_def records_for_def profiles_of_def)

text \<open>
  After \<open>A\<close> and \<open>B\<close> have liked each other and nobody has stored a profile, both likes are
  in the ledger and \<^verbatim>\<open>list_chats\<close> answers \<open>A\<close> with the empty list: mutual likes alone do
  not make \<open>B\<close> appear.
\<close>

theorem chat_peers_iff_mutual_counterexample:
  "list_chats sample_lib (run sample_lib empty_db mutual_likes) id_A = Inr [] \<and>
   \<not> (appears [] 11 \<longleftrightarrow>
        likes (run sample_lib empty_db mutual_likes) 10 11 \<and> likes (run sample_lib empty_db mutual_likes) 11 10)"
  unfolding run_mutual_likes
  by (simp add: mutual_no_profile_facts appears_def)
    (simp add: list_chats_def sample_ids coll_find_def mutual_no_profile_def new_record_def getitem_def find_one_def)

text \<open>
  C9. In a well-formed database, a user \<open>B\<close> without a profile document does not appear in
  the answer of \<^verbatim>\<open>list_chats\<close>, whatever the likes; and when no user with mutual likes
  with \<open>A\<close> has a profile document, the answer is the empty list, not an exception.
\<close>

theorem peers_without_profile_omitted:
  assumes "to_oid L a = Inr A" and "well_formed db"
  shows "(profiles_of db B = [] \<longrightarrow> (\<exists>peers. list_chats L db a = Inr peers \<and> \<not> appears peers B)) \<and>
         ((\<forall>X. likes db A X \<and> likes db X A \<longrightarrow> profiles_of db X = []) \<longrightarrow> list_chats L db a = Inr [])"
proof -
  from list_chats_peers[OF assms] obtain peers where
    peers: "list_chats L db a = Inr peers"
      "\<And>B. appears peers B \<longleftrightarrow> likes db A B \<and> likes db B A \<and> profiles_of db B \<noteq> []"
      "list_all (\<lambda>p. \<exists>B. appears [p] B) peers" by blast
  have one: "\<exists>peers. list_chats L db a = Inr peers \<and> \<not> appears peers B" if "profiles_of db B = []"
    using peers(1) peers(2)[of B] that by blast
  have two: "list_chats L db a = Inr []" if none: "\<forall>X. likes db A X \<and> likes db X A \<longrightarrow> profiles_of db X = []"
  proof (cases peers)
    case Nil
    with peers(1) show ?thesis by simp
  next
    case (Cons p ps)
    with peers(3) obtain X where "appears [p] X" by auto
    with Cons have "appears peers X" by (simp add: appears_def)
    with peers(2)[of X] none show ?thesis by blast
  qed
  from one two show ?thesis by blast
qed

theorem peers_without_profile_omitted_witness:
  "to_oid sample_lib id_A = Inr 10 \<and> well_formed mutual_no_profile \<and>
   likes mutual_no_profile 10 11 \<and> likes mutual_no_profile 11 10 \<and>
   profiles_of mutual_no_profile 11 = [] \<and>
   (\<exists>peers. list_chats sample_lib mutual_no_profile id_A = Inr peers \<and> \<not> appears peers 11) \<and>
   list_chats sample_lib mutual_no_profile id_A = Inr []"
proof -
  have none: "\<forall>X. likes mutual_no_profile 10 X \<and> likes mutual_no_profile X 10 \<longrightarrow> profiles_of mutual_no_profile X = []"
    by (simp add: mutual_no_profile_facts(4))
  from peers_without_profile_omitted[OF sample_ids(1) mutual_no_profile_facts(1), where B = 11]
  show ?thesis using none mutual_no_profile_facts sample_ids(1) by blast
qed

section \<open>Conversations\<close>

lemma matches_or:
  "matches [(''$or'', Or [[(''sender_id'', VOid u), (''receiver_id'', VOid p)],
                          [(''sender_id'', VOid p), (''receiver_id'', VOid u)]])] m
     \<longleftrightarrow> in_conversation u p m"
  by (auto simp: matches_def in_conversation_def doubleton_eq_iff)

lemma get_messages_eq:
  assumes "to_oid L a = Inr A" and "to_oid L b = Inr B"
  shows "get_messages L db a b limit =
           Inr (map (\<lambda>m. serialize L (Some m))
                  (cursor_limit limit
                     (sort_key (sort_field ''created_at'') (filter (in_conversation A B) (message db)))))"
proof -
  have "coll_find [(''$or'', Or [[(''sender_id'', VOid A), (''receiver_id'', VOid B)],
                          [(''sender_id'', VOid B), (''receiver_id'', VOid A)]])] (message db)
        = filter (in_conversation A B) (message db)"
    unfolding coll_find_def by (rule filter_cong) (simp_all add: matches_or)
  with assms show ?thesis by (simp add: get_messages_def cursor_sort_def Let_def)
qed

lemma run_three_messages: "run sample_lib empty_db three_messages = chat_db"
  by (simp add: three_messages_def run_simps send_message_def sample_ids empty_db_def insert_one_def
        chat_db_def message_1_def message_2_def message_3_def Let_def)

lemma more_digits:
  "digits 16 24 200 = ''0000000000000000000000c8''"
  "digits 16 24 201 = ''0000000000000000000000c9''"
  "digits 10 20 10 = ''00000000000000000010''"
  "digits 10 20 20 = ''00000000000000000020''"
  by code_simp+

lemma serialize_messages:
  "serialize sample_lib (Some message_1) = Some shown_1"
  "serialize sample_lib (Some message_2) = Some shown_2"
  by (simp_all add: serialize_def message_1_def message_2_def shown_1_def shown_2_def get_def
        sample_lib_def more_digits Let_def)

lemma conversation_chat_db:
  "sort_key (sort_field ''created_at'') (filter (in_conversation 10 11) (message chat_db)) = [message_1, message_2]"
  by (simp add: chat_db_def in_conversation_def doubleton_eq_iff sort_field_def
        message_1_def message_2_def message_3_def)

lemma conversation_sorted:
  "mset (sort_key (sort_field ''created_at'') (filter (in_conversation A B) (message db)))
     = filter_mset (in_conversation A B) (mset (message db)) \<and>
   sorted (map (sort_field ''created_at'')
             (sort_key (sort_field ''created_at'') (filter (in_conversation A B) (message db))))"
  by (simp add: sorted_sort_key)

text \<open>
  With two messages between \<open>A\<close> and \<open>B\<close> in the log, \<^verbatim>\<open>get_messages\<close> with \<open>limit = 0\<close>
  answers with both: more than \<open>limit\<close> entries.
\<close>

theorem conversation_unbounded_at_zero_counterexample:
  "get_messages sample_lib (run sample_lib empty_db three_messages) id_A id_B 0 = Inr [Some shown_1, Some shown_2] \<and>
   \<not> int (length [Some shown_1, Some shown_2]) \<le> 0"
  unfolding run_three_messages
  by (simp add: get_messages_eq[OF sample_ids(1) sample_ids(2)] conversation_chat_db cursor_limit_def
        serialize_messages)

text \<open>
  C7. The messages of the pair \<open>{A, B}\<close>, whoever sent them, have an arrangement \<open>conv\<close> in
  ascending \<^verbatim>\<open>created_at\<close> of which every answer of \<^verbatim>\<open>get_messages\<close> is a prefix, serialized:
  for a positive \<open>limit\<close> the first \<open>limit\<close> entries (the oldest ones), for \<open>limit = 0\<close> all of
  them.
\<close>

theorem conversation_oldest_first:
  assumes "to_oid L a = Inr A" and "to_oid L b = Inr B"
  shows "\<exists>conv. mset conv = filter_mset (in_conversation A B) (mset (message db)) \<and>
           sorted (map (sort_field ''created_at'') conv) \<and>
           (0 < limit \<longrightarrow>
              get_messages L db a b limit = Inr (map (\<lambda>m. serialize L (Some m)) (take (nat limit) conv))) \<and>
           (limit = 0 \<longrightarrow> get_messages L db a b limit = Inr (map (\<lambda>m. serialize L (Some m)) conv)) \<and>
           (\<exists>k. get_messages L db a b limit = Inr (map (\<lambda>m. serialize L (Some m)) (take k conv)))"
proof -
  define conv where "conv = sort_key (sort_field ''created_at'') (filter (in_conversation A B) (message db))"
  have eq: "get_messages L db a b limit = Inr (map (\<lambda>m. serialize L (Some m)) (cursor_limit limit conv))"
    unfolding conv_def by (rule get_messages_eq[OF assms])
  have m: "mset conv = filter_mset (in_conversation A B) (mset (message db))"
    and s: "sorted (map (sort_field ''created_at'') conv)"
    unfolding conv_def using conversation_sorted[of A B db] by simp_all
  have pos: "get_messages L db a b limit = Inr (map (\<lambda>m. serialize L (Some m)) (take (nat limit) conv))"
    if "0 < limit"
    using that eq by (simp add: cursor_limit_def)
  have zero: "get_messages L db a b limit = Inr (map (\<lambda>m. serialize L (Some m)) conv)"
    if "limit = 0"
    using that eq by (simp add: cursor_limit_def)
  have "cursor_limit limit conv = take (if limit = 0 then length conv else nat \<bar>limit\<bar>) conv"
    by (simp add: cursor_limit_def)
  with eq have "\<exists>k. get_messages L db a b limit = Inr (map (\<lambda>m. serialize L (Some m)) (take k conv))"
    by metis
  with m s pos zero show ?thesis by blast
qed

theorem conversation_oldest_first_witness:
  "to_oid sample_lib id_A = Inr 10 \<and> to_oid sample_lib id_B = Inr 11 \<and> (0::int) < 1 \<and>
   (\<exists>conv. mset conv = filter_mset (in_conversation 10 11) (mset (message chat_db)) \<and>
           sorted (map (sort_field ''created_at'') conv) \<and>
           get_messages sample_lib chat_db id_A id_B 1 = Inr (map (\<lambda>m. serialize sample_lib (Some m)) (take (nat 1) conv))) \<and>
   get_messages sample_lib chat_db id_B id_A 1 = Inr [Some shown_1]"
proof -
  have lt: "(0::int) < 1" by simp
  have ev: "get_messages sample_lib chat_db id_B id_A 1 = Inr [Some shown_1]"
    by (simp add: get_messages_eq[OF sample_ids(2) sample_ids(1)] cursor_limit_def serialize_messages
          chat_db_def in_conversation_def doubleton_eq_iff sort_field_def
          message_1_def[symmetric] message_2_def message_3_def)
      (simp add: message_1_def)
  from conversation_oldest_first[OF sample_ids(1) sample_ids(2), where db = chat_db and limit = 1]
  show ?thesis using lt ev sample_ids(1,2) by blast
qed

text \<open>
  C10. With \<open>limit = 0\<close>, \<^verbatim>\<open>get_messages\<close> answers with all the messages of the pair
  \<open>{A, B}\<close>, in ascending \<^verbatim>\<open>created_at\<close>; with a positive \<open>limit\<close>, with at most \<open>limit\<close>
  messages.
\<close>

theorem zero_limit_returns_all:
  assumes "to_oid L a = Inr A" and "to_oid L b = Inr B"
  shows "(\<exists>conv. get_messages L db a b 0 = Inr (map (\<lambda>m. serialize L (Some m)) conv) \<and>
            mset conv = filter_mset (in_conversation A B) (mset (message db)) \<and>
            sorted (map (sort_field ''created_at'') conv) \<and>
            length conv = length (filter (in_conversation A B) (message db))) \<and>
         (0 < limit \<longrightarrow> (\<exists>rs. get_messages L db a b limit = Inr rs \<and> int (length rs) \<le> limit))"
proof (intro conjI impI)
  define conv where "conv = sort_key (sort_field ''created_at'') (filter (in_conversation A B) (message db))"
  have "get_messages L db a b 0 = Inr (map (\<lambda>m. serialize L (Some m)) conv)"
    unfolding conv_def by (simp add: get_messages_eq[OF assms] cursor_limit_def)
  moreover have "mset conv = filter_mset (in_conversation A B) (mset (message db))"
    "sorted (map (sort_field ''created_at'') conv)"
    unfolding conv_def using conversation_sorted[of A B db] by simp_all
  moreover have "length conv = length (filter (in_conversation A B) (message db))"
    unfolding conv_def by simp
  ultimately show "\<exists>conv. get_messages L db a b 0 = Inr (map (\<lambda>m. serialize L (Some m)) conv) \<and>
            mset conv = filter_mset (in_conversation A B) (mset (message db)) \<and>
            sorted (map (sort_field ''created_at'') conv) \<and>
            length conv = length (filter (in_conversation A B) (message db))"
    by blast
next
  assume "0 < limit"
  then show "\<exists>rs. get_messages L db a b limit = Inr rs \<and> int (length rs) \<le> limit"
    by (simp add: get_messages_eq[OF assms] cursor_limit_def)
qed

theorem zero_limit_returns_all_witness:
  "to_oid sample_lib id_A = Inr 10 \<and> to_oid sample_lib id_B = Inr 11 \<and> (0::int) < 1 \<and>
   length (filter (in_conversation 10 11) (message chat_db)) = 2 \<and>
   (\<exists>conv. get_messages sample_lib chat_db id_A id_B 0 = Inr (map (\<lambda>m. serialize sample_lib (Some m)) conv) \<and>
            length conv = 2) \<and>
   (\<exists>rs. get_messages sample_lib chat_db id_A id_B 1 = Inr rs \<and> int (length rs) \<le> 1)"
proof -
  have lt: "(0::int) < 1" by simp
  have len: "length (filter (in_conversation 10 11) (message chat_db)) = 2"
    by (simp add: chat_db_def in_conversation_def doubleton_eq_iff message_1_def message_2_def message_3_def)
  from zero_limit_returns_all[OF sample_ids(1) sample_ids(2), where db = chat_db and limit = 1]
  show ?thesis using lt len sample_ids(1,2) by auto
qed

section \<open>Well-formedness is an invariant\<close>

text \<open>
  Every handler that writes keeps the database well formed, so every database reached from
  the empty one is: the hypothesis \<open>well_formed db\<close> of the theorems above holds of all of
  them.
\<close>

lemma apply_set_append: "apply_set (s @ t) d = apply_set t (apply_set s d)"
  by (simp add: apply_set_def)

lemma apply_set_keeps: "k \<notin> fst ` set s \<Longrightarrow> map_of (apply_set s d) k = map_of d k"
proof (induction s arbitrary: d)
  case Nil
  then show ?case by (simp add: apply_set_def)
next
  case (Cons x xs)
  obtain k' v' where x: "x = (k', v')" by (cases x)
  from Cons.prems x have "k \<noteq> k'" "k \<notin> fst ` set xs" by auto
  with Cons.IH[of "AList.update k' v' d"] x show ?case
    by (simp add: apply_set_def update_conv')
qed

lemma apply_set_last: "map_of (apply_set (s @ [(k, v)]) d) k = Some v"
  by (simp add: apply_set_append) (simp add: apply_set_def update_conv')

lemma update_new_key: "k \<notin> fst ` set xs \<Longrightarrow> AList.update k v xs = xs @ [(k, v)]"
  by (induction xs) auto

lemma update_first_all:
  assumes "\<forall>d\<in>set c. P d" and "\<And>d. P d \<Longrightarrow> P (f d)" and "update_first Q f c = Some c'"
  shows "\<forall>d\<in>set c'. P d"
proof -
  from update_first_Some[OF assms(3)] obtain pre d post where
    "c = pre @ d # post" "c' = pre @ f d # post" by blast
  with assms(1,2) show ?thesis by auto
qed

lemma update_one_all:
  assumes "\<forall>d\<in>set c. P d" and "\<And>d. P d \<Longrightarrow> P (apply_set s d)"
    and "upsert \<Longrightarrow> P (apply_set (eq_fields q @ s @ i) [(''_id'', VOid n)])"
  shows "\<forall>d\<in>set (fst (update_one q s i upsert n c)). P d"
proof (cases "update_first (matches q) (apply_set s) c")
  case None
  with assms(1,3) show ?thesis by (auto simp: update_one_def)
next
  case (Some c')
  from update_first_all[OF assms(1) assms(2) Some] Some show ?thesis
    by (simp add: update_one_def)
qed

lemma well_formed_profile:
  "well_formed db \<Longrightarrow> \<forall>d\<in>set c. profile_ok d \<Longrightarrow> well_formed (db\<lparr>profile := c\<rparr>)"
  by (simp add: well_formed_def list_all_iff profile_ok_def)

lemma well_formed_profile_ok: "well_formed db \<Longrightarrow> \<forall>d\<in>set (profile db). profile_ok d"
  by (simp add: well_formed_def list_all_iff profile_ok_def)

lemma well_formed_message: "well_formed db \<Longrightarrow> well_formed (db\<lparr>message := c\<rparr>)"
  by (simp add: well_formed_def)

lemma create_well_formed:
  assumes "well_formed db"
  shows "well_formed (snd (create_or_complete_profile L db details t1 t2 n))"
proof (cases "to_oid L (ProfileDetails.user_id details)")
  case (Inl e)
  with assms show ?thesis by (simp add: create_or_complete_profile_def)
next
  case (Inr u)
  define s where "s = [(''user_id'', VOid u),
                 (''nickname'', VStr (ProfileDetails.nickname details)),
                 (''bio'', opt_val VStr (ProfileDetails.bio details)),
                 (''tags'', str_list (ProfileDetails.tags details)),
                 (''photos'', str_list (ProfileDetails.photos details)),
                 (''age'', opt_val VInt (ProfileDetails.age details)),
                 (''updated_at'', VDatetime t1)]"
  have set_ok: "profile_ok (apply_set s d)" for d
    by (simp add: s_def profile_ok_def is_oid_def is_datetime_def apply_set_def update_conv')
  have ins_ok: "profile_ok (apply_set (eq_fields [(''user_id'', Is (VOid u))] @ s @ [(''created_at'', VDatetime t2)])
                   [(''_id'', VOid n)])"
    by (simp add: s_def profile_ok_def is_oid_def is_datetime_def apply_set_def update_conv')
  have "\<forall>d\<in>set (fst (update_one [(''user_id'', Is (VOid u))] s [(''created_at'', VDatetime t2)] True n (profile db))).
          profile_ok d"
    by (rule update_one_all[OF well_formed_profile_ok[OF assms]]) (rule set_ok, rule ins_ok)
  from well_formed_profile[OF assms this] Inr show ?thesis
    by (simp add: create_or_complete_profile_def Let_def s_def)
qed

lemma changes_keys:
  "fst ` set (filter (\<lambda>(k, v). k \<noteq> ''user_id'' \<and> v \<noteq> VNone) (model_dump payload))
     \<subseteq> {''nickname'', ''bio'', ''tags'', ''photos'', ''age''}"
  by (auto simp: model_dump_def)

lemma update_profile_well_formed:
  assumes "well_formed db"
  shows "well_formed (snd (update_profile L db payload t))"
proof (cases "to_oid L (ProfileUpdate.user_id payload)")
  case (Inl e)
  with assms show ?thesis by (simp add: update_profile_def)
next
  case (Inr u)
  define xs where "xs = filter (\<lambda>(k, v). k \<noteq> ''user_id'' \<and> v \<noteq> VNone) (model_dump payload)"
  have keys: "fst ` set xs \<subseteq> {''nickname'', ''bio'', ''tags'', ''photos'', ''age''}"
    unfolding xs_def by (rule changes_keys)
  then have fresh: "''updated_at'' \<notin> fst ` set xs" "''user_id'' \<notin> fst ` set xs" by auto
  have ch: "AList.update ''updated_at'' (VDatetime t) xs = xs @ [(''updated_at'', VDatetime t)]"
    by (rule update_new_key[OF fresh(1)])
  have set_ok: "profile_ok (apply_set (AList.update ''updated_at'' (VDatetime t) xs) d)" if "profile_ok d" for d
  proof -
    have "map_of (apply_set (xs @ [(''updated_at'', VDatetime t)]) d) ''updated_at'' = Some (VDatetime t)"
      by (rule apply_set_last)
    moreover have "map_of (apply_set (xs @ [(''updated_at'', VDatetime t)]) d) ''user_id'' = map_of d ''user_id''"
      by (rule apply_set_keeps) (use fresh(2) in auto)
    ultimately show ?thesis using that unfolding ch by (simp add: profile_ok_def is_oid_def is_datetime_def)
  qed
  have "\<forall>d\<in>set (fst (update_one [(''user_id'', Is (VOid u))] (AList.update ''updated_at'' (VDatetime t) xs)
                         [] False 0 (profile db))). profile_ok d"
    by (rule update_one_all[OF well_formed_profile_ok[OF assms]]) (rule set_ok, simp_all)
  from well_formed_profile[OF assms this] assms Inr show ?thesis
    by (simp add: update_profile_def Let_def xs_def)
qed

lemma like_profile_well_formed:
  assumes "well_formed db"
  shows "well_formed (snd (like_profile L db payload t1 t2 n))"
  using like_profile_cases[of L db payload t1 t2 n] assms well_formed_upsert by auto

lemma send_message_well_formed:
  assumes "well_formed db"
  shows "well_formed (snd (send_message L db payload t n))"
  using assms by (auto simp: send_message_def Let_def well_formed_message split: sum.splits)

lemma step_well_formed: "well_formed db \<Longrightarrow> well_formed (step L db req)"
  by (cases req)
    (simp_all add: create_well_formed update_profile_well_formed like_profile_well_formed
       send_message_well_formed)

lemma run_well_formed: "well_formed db \<Longrightarrow> well_formed (run L db reqs)"
  by (induction reqs arbitrary: db) (simp_all add: run_simps step_well_formed)

lemma reachable_well_formed: "well_formed (run L empty_db reqs)"
  by (rule run_well_formed) (simp add: well_formed_def empty_db_def)

end
